theory Spec2Isabelle
  imports Main "HOL-Library.Word" "HOL-Library.Sublist"
begin

unbundle bit_operations_syntax

section \<open>Data model\<close>

text \<open>
  The generation clients of \<^verbatim>\<open>src/VideoGenerator\<close> talk to the Venice HTTP API through
  the \<^verbatim>\<open>requests\<close> library, read the JSON body of the answer and decode a base64 payload.
  Bytes are lists of 8-bit words; a Python \<^verbatim>\<open>str\<close> is a \<^typ>\<open>string\<close>.
\<close>

type_synonym bytes = "8 word list"

text \<open>
  A value returned by \<^verbatim>\<open>response.json()\<close>. \<open>JAtom\<close> stands for \<^verbatim>\<open>None\<close>, a boolean or a
  number: the clients treat the three alike (not a \<^verbatim>\<open>str\<close>, not a \<^verbatim>\<open>list\<close>, no \<^verbatim>\<open>len\<close>,
  no subscript, no \<^verbatim>\<open>in\<close>). A dict is an association list read by \<^const>\<open>map_of\<close>.
\<close>

datatype json = JAtom | JStr string | JList "json list" | JObj "(string \<times> json) list"

text \<open>
  The exceptions the clients can meet. \<open>HTTPError st\<close> is what \<^verbatim>\<open>raise_for_status\<close> raises
  for status \<open>st\<close>; \<open>RequestException\<close> is any other exception raised by \<^verbatim>\<open>requests.post\<close>
  or \<^verbatim>\<open>requests.get\<close> (connection failure, timeout, invalid URL); \<open>PyException msg\<close> is
  \<^verbatim>\<open>Exception(msg)\<close> raised by the client itself.
\<close>

datatype error =
    HTTPError nat
  | RequestException
  | JSONDecodeError
  | TypeError
  | KeyError
  | IndexError
  | ValueError
  | BinasciiError
  | PyException string

subsection \<open>Python operations on JSON values\<close>

text \<open>\<^verbatim>\<open>key in data\<close>: key membership for a dict, element membership for a list, substring
  for a str, \<^verbatim>\<open>TypeError\<close> otherwise.\<close>

definition py_in :: "string \<Rightarrow> json \<Rightarrow> error + bool" where
  "py_in key data =
     (case data of
        JObj kvs \<Rightarrow> Inr (key \<in> set (map fst kvs))
      | JList xs \<Rightarrow> Inr (JStr key \<in> set xs)
      | JStr s \<Rightarrow> Inr (sublist key s)
      | JAtom \<Rightarrow> Inl TypeError)"

text \<open>\<^verbatim>\<open>data[key]\<close> with a str key.\<close>

definition py_getitem :: "json \<Rightarrow> string \<Rightarrow> error + json" where
  "py_getitem data key =
     (case data of
        JObj kvs \<Rightarrow> (case map_of kvs key of None \<Rightarrow> Inl KeyError | Some v \<Rightarrow> Inr v)
      | _ \<Rightarrow> Inl TypeError)"

text \<open>\<^verbatim>\<open>len(x)\<close>.\<close>

definition py_len :: "json \<Rightarrow> error + nat" where
  "py_len x =
     (case x of
        JStr s \<Rightarrow> Inr (length s)
      | JList xs \<Rightarrow> Inr (length xs)
      | JObj kvs \<Rightarrow> Inr (length (remdups (map fst kvs)))
      | JAtom \<Rightarrow> Inl TypeError)"

text \<open>\<^verbatim>\<open>x[0]\<close>: the keys of a JSON dict are strings, so the integer key is never there.\<close>

definition py_first :: "json \<Rightarrow> error + json" where
  "py_first x =
     (case x of
        JList [] \<Rightarrow> Inl IndexError
      | JList (y # _) \<Rightarrow> Inr y
      | JStr [] \<Rightarrow> Inl IndexError
      | JStr (c # _) \<Rightarrow> Inr (JStr [c])
      | JObj _ \<Rightarrow> Inl KeyError
      | JAtom \<Rightarrow> Inl TypeError)"

text \<open>\<^verbatim>\<open>s.startswith("http")\<close>.\<close>

definition startswith_http :: "string \<Rightarrow> bool" where
  "startswith_http s = (take 4 s = ''http'')"

subsection \<open>Base64\<close>

text \<open>
  \<^verbatim>\<open>base64.b64decode\<close> is Python library code. It is modelled after CPython's
  \<^verbatim>\<open>binascii.a2b_base64\<close> in its default, non-strict mode: characters outside the
  alphabet are skipped, a pad sequence that completes a quad ends the decoding, and a
  dangling quad is an error.
\<close>

definition table_b2a_base64 :: string where
  "table_b2a_base64 = ''ABCDEFGHIJKLMNOPQRSTUVWXYZabcdefghijklmnopqrstuvwxyz0123456789+/''"

definition table_a2b_base64 :: "char \<Rightarrow> 8 word option" where
  "table_a2b_base64 c = map_option of_nat (map_of (zip table_b2a_base64 [0..<64]) c)"

fun a2b_base64 :: "nat \<Rightarrow> 8 word \<Rightarrow> nat \<Rightarrow> bytes \<Rightarrow> string \<Rightarrow> error + bytes" where
  "a2b_base64 quad_pos leftchar pads out [] =
     (if quad_pos \<noteq> 0 then Inl BinasciiError else Inr out)"
| "a2b_base64 quad_pos leftchar pads out (c # cs) =
     (if c = CHR ''='' then
        (if 2 \<le> quad_pos \<and> 4 \<le> quad_pos + (pads + 1) then Inr out
         else a2b_base64 quad_pos leftchar (if 2 \<le> quad_pos then pads + 1 else pads) out cs)
      else
        (case table_a2b_base64 c of
           None \<Rightarrow> a2b_base64 quad_pos leftchar pads out cs
         | Some this_ch \<Rightarrow>
             (if quad_pos = 0 then a2b_base64 1 this_ch 0 out cs
              else if quad_pos = 1 then
                a2b_base64 2 (this_ch AND 15) 0
                  (out @ [push_bit 2 leftchar OR drop_bit 4 this_ch]) cs
              else if quad_pos = 2 then
                a2b_base64 3 (this_ch AND 3) 0
                  (out @ [push_bit 4 leftchar OR drop_bit 2 this_ch]) cs
              else a2b_base64 0 0 0 (out @ [push_bit 6 leftchar OR this_ch]) cs)))"

text \<open>\<^verbatim>\<open>base64.b64decode(x)\<close>: a str must be ASCII (\<^verbatim>\<open>ValueError\<close> otherwise); a JSON value
  that is not a str is no bytes-like object (\<^verbatim>\<open>TypeError\<close>).\<close>

definition b64decode :: "json \<Rightarrow> error + bytes" where
  "b64decode x =
     (case x of
        JStr s \<Rightarrow>
          if list_all (\<lambda>c. of_char c < (128::nat)) s then a2b_base64 0 0 0 [] s
          else Inl ValueError
      | _ \<Rightarrow> Inl TypeError)"

text \<open>
  Modelled from the spec: the encoder of the mocked service of section 8 ("a mocked
  service that returns a base64 payload") is not part of the repository. It is the
  standard base64 encoding with padding, as \<^verbatim>\<open>base64.b64encode\<close> computes it: three bytes
  give four characters of the alphabet, a rest of one or two bytes is padded with \<open>=\<close>.
\<close>

definition b2a :: "8 word \<Rightarrow> char" where
  "b2a i = table_b2a_base64 ! unat i"

text \<open>The four 6-bit groups of three bytes \<open>a\<close>, \<open>b\<close>, \<open>c\<close>.\<close>

definition sextet0 :: "8 word \<Rightarrow> 8 word" where
  "sextet0 a = drop_bit 2 a"

definition sextet1 :: "8 word \<Rightarrow> 8 word \<Rightarrow> 8 word" where
  "sextet1 a b = push_bit 4 (a AND 3) OR drop_bit 4 b"

definition sextet2 :: "8 word \<Rightarrow> 8 word \<Rightarrow> 8 word" where
  "sextet2 b c = push_bit 2 (b AND 15) OR drop_bit 6 c"

definition sextet3 :: "8 word \<Rightarrow> 8 word" where
  "sextet3 c = c AND 63"

fun b64encode :: "bytes \<Rightarrow> string" where
  "b64encode [] = []"
| "b64encode [a] = [b2a (sextet0 a), b2a (sextet1 a 0), CHR ''='', CHR ''='']"
| "b64encode [a, b] =
     [b2a (sextet0 a), b2a (sextet1 a b), b2a (sextet2 b 0), CHR ''='']"
| "b64encode (a # b # c # rest) =
     [b2a (sextet0 a), b2a (sextet1 a b), b2a (sextet2 b c), b2a (sextet3 c)]
     @ b64encode rest"

section \<open>The network and the file system\<close>

text \<open>
  The clients are sequential, so the outside world is a script: \<open>replies\<close> holds what the
  calls of \<^verbatim>\<open>requests.post\<close> and \<^verbatim>\<open>requests.get\<close> still to come will answer, in order, and
  \<open>trace\<close> records every such call and every \<^verbatim>\<open>time.sleep\<close>. A reply is either an
  exception raised by \<^verbatim>\<open>requests\<close> or a response: its status code, the result of
  \<^verbatim>\<open>response.json()\<close> (\<open>None\<close> when the body is no JSON) and \<^verbatim>\<open>response.content\<close>. An
  exhausted script answers like a network that is down. \<open>files\<close> is the file system, an
  association list from paths to contents read by \<^const>\<open>map_of\<close>.
  Console output (\<^verbatim>\<open>print\<close>) is not modelled.
\<close>

datatype endpoint = ImageGenerate | VideoGenerate

record payload =
  p_model :: string
  p_prompt :: string
  p_width :: "nat option"
  p_height :: "nat option"
  p_duration :: "int option"
  p_return_binary :: "bool option"
  p_hide_watermark :: "bool option"

datatype event =
    Post endpoint payload "nat option"
  | Get string
  | Sleep nat

datatype reply = Raises | Response nat "json option" bytes

record world =
  replies :: "reply list"
  trace :: "event list"
  files :: "(string \<times> bytes) list"

definition send :: "event \<Rightarrow> world \<Rightarrow> reply \<times> world" where
  "send ev w =
     (case replies w of
        [] \<Rightarrow> (Raises, w\<lparr>trace := trace w @ [ev]\<rparr>)
      | r # rs \<Rightarrow> (r, w\<lparr>replies := rs, trace := trace w @ [ev]\<rparr>))"

definition sleep :: "nat \<Rightarrow> world \<Rightarrow> world" where
  "sleep n w = w\<lparr>trace := trace w @ [Sleep n]\<rparr>"

text \<open>\<^verbatim>\<open>response.raise_for_status()\<close> raises for the 4xx and 5xx codes.\<close>

definition is_http_error :: "nat \<Rightarrow> bool" where
  "is_http_error st = (400 \<le> st \<and> st < 600)"

text \<open>
  \<^verbatim>\<open>requests\<close> prepares a URL before anything is sent, and raises when it cannot: leading
  white space is stripped, the text must go on with \<^verbatim>\<open>http://\<close> or \<^verbatim>\<open>https://\<close> in any
  case of letters (\<^verbatim>\<open>MissingSchema\<close>, \<^verbatim>\<open>InvalidSchema\<close> otherwise), and a host must follow
  (\<^verbatim>\<open>InvalidURL\<close> otherwise). \<open>rejected_url\<close> holds these checks. The library rejects some
  more texts (a malformed host or port); for them the reply \<open>Raises\<close> stands.
\<close>

definition py_isspace :: "char \<Rightarrow> bool" where
  "py_isspace c = (of_char c \<in> set [9, 10, 11, 12, 13, 28, 29, 30, 31, 32, 133, 160 :: nat])"

definition lstrip :: "string \<Rightarrow> string" where
  "lstrip s = dropWhile py_isspace s"

text \<open>\<^verbatim>\<open>str.lower\<close> on the letters A to Z, which is all a comparison with \<^verbatim>\<open>http://\<close> needs.\<close>

definition lower_ascii :: "char \<Rightarrow> char" where
  "lower_ascii c =
     (if 65 \<le> (of_char c :: nat) \<and> (of_char c :: nat) \<le> 90 then char_of (of_char c + 32 :: nat)
      else c)"

definition no_host :: "string \<Rightarrow> bool" where
  "no_host r = (case r of [] \<Rightarrow> True | c # cs \<Rightarrow> c \<in> set ''/?#'')"

definition rejected_url :: "string \<Rightarrow> bool" where
  "rejected_url u =
     (let s = lstrip u; l = map lower_ascii s
      in if take 7 l = ''http://'' then no_host (drop 7 s)
         else if take 8 l = ''https://'' then no_host (drop 8 s)
         else True)"

text \<open>\<^verbatim>\<open>requests.get(u).content\<close>. A JSON value that is no str, and a str that is rejected as
  a URL, raise before anything is sent; any other str is handed to the network.\<close>

definition requests_get :: "json \<Rightarrow> world \<Rightarrow> (error + bytes) \<times> world" where
  "requests_get u w =
     (case u of
        JStr url \<Rightarrow>
          if rejected_url url then (Inl RequestException, w)
          else
            (case send (Get url) w of
               (Raises, w') \<Rightarrow> (Inl RequestException, w')
             | (Response st js content, w') \<Rightarrow> (Inr content, w'))
      | _ \<Rightarrow> (Inl RequestException, w))"

text \<open>The events a call added to the trace.\<close>

definition emitted :: "world \<Rightarrow> world \<Rightarrow> event list" where
  "emitted w w' = drop (length (trace w)) (trace w')"

text \<open>Sequencing of computations that may raise.\<close>

definition bindE :: "error + 'a \<Rightarrow> ('a \<Rightarrow> error + 'b) \<Rightarrow> error + 'b" where
  "bindE x f = (case x of Inl e \<Rightarrow> Inl e | Inr v \<Rightarrow> f v)"

text \<open>\<^verbatim>\<open>requests.post(...)\<close>, \<^verbatim>\<open>response.raise_for_status()\<close>, \<^verbatim>\<open>response.json()\<close>.\<close>

definition post_json :: "endpoint \<Rightarrow> payload \<Rightarrow> nat option \<Rightarrow> world \<Rightarrow> (error + json) \<times> world" where
  "post_json ep pl timeout w =
     (case send (Post ep pl timeout) w of
        (Raises, w') \<Rightarrow> (Inl RequestException, w')
      | (Response st js content, w') \<Rightarrow>
          (if is_http_error st then Inl (HTTPError st)
           else (case js of None \<Rightarrow> Inl JSONDecodeError | Some data \<Rightarrow> Inr data), w'))"

text \<open>\<^verbatim>\<open>"images" in data and len(data["images"]) > 0\<close>.\<close>

definition has_images :: "json \<Rightarrow> error + bool" where
  "has_images data =
     bindE (py_in ''images'' data) (\<lambda>present.
       if present then
         bindE (py_getitem data ''images'') (\<lambda>images.
           bindE (py_len images) (\<lambda>n. Inr (0 < n)))
       else Inr False)"

text \<open>\<^verbatim>\<open>base64.b64decode(data["images"][0])\<close>.\<close>

definition first_image :: "json \<Rightarrow> error + bytes" where
  "first_image data =
     bindE (py_getitem data ''images'') (\<lambda>images. bindE (py_first images) b64decode)"

text \<open>What the body of a \<^verbatim>\<open>try\<close> block did: it returned from the function, it raised, or it
  ran to its end.\<close>

datatype outcome = Returned bytes | Raised error | FellThrough

text \<open>The branch shared by the video paths for a str \<open>s\<close>: fetch it when it starts with
  \<^verbatim>\<open>http\<close>, decode it as base64 otherwise.\<close>

definition media_of_str :: "string \<Rightarrow> world \<Rightarrow> outcome \<times> world" where
  "media_of_str s w =
     (if startswith_http s then
        (case requests_get (JStr s) w of
           (Inl e, w') \<Rightarrow> (Raised e, w')
         | (Inr content, w') \<Rightarrow> (Returned content, w'))
      else
        (case b64decode (JStr s) of
           Inl e \<Rightarrow> (Raised e, w)
         | Inr b \<Rightarrow> (Returned b, w)))"

section \<open>The main client: \<^verbatim>\<open>generate_graeber_video.py\<close>, class \<^verbatim>\<open>VeniceAPIClient\<close>\<close>

subsection \<open>\<^verbatim>\<open>generate_image\<close>\<close>

definition image_models_to_try :: "string \<Rightarrow> string list" where
  "image_models_to_try model =
     [''nano-banana-pro'', ''hidream'', ''venice-sd35'', ''qwen-image'', ''z-image-turbo'', model]"

definition image_payload :: "string \<Rightarrow> string \<Rightarrow> payload" where
  "image_payload try_model prompt =
     \<lparr>p_model = try_model, p_prompt = prompt, p_width = Some 1280, p_height = Some 720,
      p_duration = None, p_return_binary = Some False, p_hide_watermark = None\<rparr>"

text \<open>The body of the outer \<^verbatim>\<open>try\<close> (lines 213 to 225).\<close>

definition image_try :: "payload \<Rightarrow> world \<Rightarrow> (error + bytes) \<times> world" where
  "image_try pl w =
     (case post_json ImageGenerate pl (Some 60) w of
        (Inl e, w') \<Rightarrow> (Inl e, w')
      | (Inr data, w') \<Rightarrow>
          (bindE (has_images data) (\<lambda>ok.
             if ok then first_image data else Inl (PyException ''No image data returned'')),
           w'))"

text \<open>The retry after a rate limit (lines 236 to 244): the same request once more; any
  exception is swallowed by the bare \<^verbatim>\<open>except\<close>, and a body without images does nothing.\<close>

definition image_retry :: "payload \<Rightarrow> world \<Rightarrow> bytes option \<times> world" where
  "image_retry pl w =
     (case post_json ImageGenerate pl (Some 60) w of
        (Inl e, w') \<Rightarrow> (None, w')
      | (Inr data, w') \<Rightarrow>
          ((case has_images data of
              Inl e \<Rightarrow> None
            | Inr ok \<Rightarrow>
                if ok then (case first_image data of Inl e \<Rightarrow> None | Inr b \<Rightarrow> Some b)
                else None),
           w'))"

text \<open>One iteration of the \<^verbatim>\<open>for\<close> loop: \<open>Some b\<close> is \<^verbatim>\<open>return b\<close>, \<open>None\<close> goes on to the next
  identifier; the second component is \<^verbatim>\<open>last_error\<close>.\<close>

definition image_iteration ::
  "string \<Rightarrow> string \<Rightarrow> error option \<Rightarrow> world \<Rightarrow> (bytes option \<times> error option) \<times> world" where
  "image_iteration prompt try_model last_error w =
     (case image_try (image_payload try_model prompt) w of
        (Inr b, w') \<Rightarrow> ((Some b, last_error), w')
      | (Inl e, w') \<Rightarrow>
          (case e of
             HTTPError st \<Rightarrow>
               if st = 404 then ((None, Some e), w')
               else if st = 429 then
                 (case image_retry (image_payload try_model prompt) (sleep 15 w') of
                    (r, w'') \<Rightarrow> ((r, Some e), w''))
               else ((None, Some e), w')
           | _ \<Rightarrow> ((None, Some e), w')))"

fun image_loop ::
  "string \<Rightarrow> string list \<Rightarrow> error option \<Rightarrow> world \<Rightarrow> (bytes option \<times> error option) \<times> world" where
  "image_loop prompt [] last_error w = ((None, last_error), w)"
| "image_loop prompt (try_model # rest) last_error w =
     (case image_iteration prompt try_model last_error w of
        ((Some b, le), w') \<Rightarrow> ((Some b, le), w')
      | ((None, le), w') \<Rightarrow> image_loop prompt rest le w')"

definition generate_image :: "string \<Rightarrow> string \<Rightarrow> world \<Rightarrow> (error + bytes) \<times> world" where
  "generate_image prompt model w =
     (case image_loop prompt (image_models_to_try model) None w of
        ((Some b, le), w') \<Rightarrow> (Inr b, w')
      | ((None, Some e), w') \<Rightarrow> (Inl e, w')
      | ((None, None), w') \<Rightarrow> (Inl (PyException ''All image models failed''), w'))"

text \<open>The default value of the parameter \<^verbatim>\<open>model\<close>.\<close>

definition default_image_model :: string where
  "default_image_model = ''nano-banana-pro''"

subsection \<open>\<^verbatim>\<open>generate_video\<close>\<close>

definition video_models_to_try :: "(string \<times> bool) list" where
  "video_models_to_try =
     [(''sora-2-pro-text-to-video'', True),
      (''veo3.1-full-text-to-video'', True),
      (''kling-2.6-pro-text-to-video'', True),
      (''wan-2.6-text-to-video'', True),
      (''ltx-2-full-text-to-video'', True)]"

definition video_payload :: "string \<Rightarrow> bool \<Rightarrow> string \<Rightarrow> int \<Rightarrow> payload" where
  "video_payload model_id supports_duration prompt duration =
     \<lparr>p_model = model_id, p_prompt = prompt, p_width = None, p_height = None,
      p_duration = (if supports_duration then Some duration else None),
      p_return_binary = None, p_hide_watermark = None\<rparr>"

text \<open>The \<^verbatim>\<open>if\<close>/\<^verbatim>\<open>elif\<close> chain over the keys \<^verbatim>\<open>video\<close>, \<^verbatim>\<open>url\<close>, \<^verbatim>\<open>videos\<close> (lines 299 to 319). A
  value under \<^verbatim>\<open>video\<close>, or a first element of \<^verbatim>\<open>videos\<close>, that is no str leaves the chain
  without a \<^verbatim>\<open>return\<close> and without a \<^verbatim>\<open>raise\<close>.\<close>

definition video_body :: "json \<Rightarrow> world \<Rightarrow> outcome \<times> world" where
  "video_body data w =
     (case py_in ''video'' data of
        Inl e \<Rightarrow> (Raised e, w)
      | Inr has_video \<Rightarrow>
          if has_video then
            (case py_getitem data ''video'' of
               Inl e \<Rightarrow> (Raised e, w)
             | Inr v \<Rightarrow> (case v of JStr s \<Rightarrow> media_of_str s w | _ \<Rightarrow> (FellThrough, w)))
          else
            (case py_in ''url'' data of
               Inl e \<Rightarrow> (Raised e, w)
             | Inr has_url \<Rightarrow>
                 if has_url then
                   (case py_getitem data ''url'' of
                      Inl e \<Rightarrow> (Raised e, w)
                    | Inr u \<Rightarrow>
                        (case requests_get u w of
                           (Inl e, w') \<Rightarrow> (Raised e, w')
                         | (Inr content, w') \<Rightarrow> (Returned content, w')))
                 else
                   (case bindE (py_in ''videos'' data) (\<lambda>present.
                           if present then
                             bindE (py_getitem data ''videos'') (\<lambda>videos.
                               bindE (py_len videos) (\<lambda>n. Inr (0 < n)))
                           else Inr False) of
                      Inl e \<Rightarrow> (Raised e, w)
                    | Inr has_videos \<Rightarrow>
                        if has_videos then
                          (case bindE (py_getitem data ''videos'') py_first of
                             Inl e \<Rightarrow> (Raised e, w)
                           | Inr video_data \<Rightarrow>
                               (case video_data of
                                  JStr s \<Rightarrow> media_of_str s w
                                | _ \<Rightarrow> (FellThrough, w)))
                        else (Raised (PyException ''No video data in response''), w))))"

text \<open>The body of the \<^verbatim>\<open>try\<close> (lines 293 to 319).\<close>

definition video_try :: "payload \<Rightarrow> world \<Rightarrow> outcome \<times> world" where
  "video_try pl w =
     (case post_json VideoGenerate pl (Some 180) w of
        (Inl e, w') \<Rightarrow> (Raised e, w')
      | (Inr data, w') \<Rightarrow> video_body data w')"

definition video_iteration ::
  "string \<Rightarrow> int \<Rightarrow> string \<times> bool \<Rightarrow> error option \<Rightarrow> world
     \<Rightarrow> (bytes option \<times> error option) \<times> world" where
  "video_iteration prompt duration entry last_error w =
     (case video_try (video_payload (fst entry) (snd entry) prompt duration) w of
        (Returned b, w') \<Rightarrow> ((Some b, last_error), w')
      | (FellThrough, w') \<Rightarrow> ((None, last_error), w')
      | (Raised e, w') \<Rightarrow>
          (case e of
             HTTPError st \<Rightarrow>
               if st = 404 then ((None, Some e), w')
               else if st = 429 then ((None, Some e), sleep 15 w')
               else ((None, Some e), w')
           | _ \<Rightarrow> ((None, Some e), w')))"

fun video_loop ::
  "string \<Rightarrow> int \<Rightarrow> (string \<times> bool) list \<Rightarrow> error option \<Rightarrow> world
     \<Rightarrow> (bytes option \<times> error option) \<times> world" where
  "video_loop prompt duration [] last_error w = ((None, last_error), w)"
| "video_loop prompt duration (entry # rest) last_error w =
     (case video_iteration prompt duration entry last_error w of
        ((Some b, le), w') \<Rightarrow> ((Some b, le), w')
      | ((None, le), w') \<Rightarrow> video_loop prompt duration rest le w')"

text \<open>After the loop the recorded error is not looked at: the image path is called with
  the same prompt and the default model.\<close>

definition generate_video :: "string \<Rightarrow> int \<Rightarrow> world \<Rightarrow> (error + bytes) \<times> world" where
  "generate_video prompt duration w =
     (case video_loop prompt duration video_models_to_try None w of
        ((Some b, le), w') \<Rightarrow> (Inr b, w')
      | ((None, le), w') \<Rightarrow> generate_image prompt default_image_model w')"

section \<open>The section client: \<^verbatim>\<open>generate_sections.py\<close>, class \<^verbatim>\<open>VeniceClient\<close>\<close>

definition sections_image_models :: "string list" where
  "sections_image_models = [''nano-banana-pro'', ''hidream'', ''venice-sd35'', ''qwen-image'']"

text \<open>Every exception of the loop body is caught and followed by \<^verbatim>\<open>continue\<close>; a rate limit
  sleeps and goes on; a body without images reaches the end of the iteration.\<close>

fun sections_image_loop :: "string \<Rightarrow> string list \<Rightarrow> world \<Rightarrow> bytes option \<times> world" where
  "sections_image_loop prompt [] w = (None, w)"
| "sections_image_loop prompt (model # rest) w =
     (case send (Post ImageGenerate (image_payload model prompt) (Some 60)) w of
        (Raises, w') \<Rightarrow> sections_image_loop prompt rest w'
      | (Response st js content, w') \<Rightarrow>
          if st = 429 then sections_image_loop prompt rest (sleep 15 w')
          else if is_http_error st then sections_image_loop prompt rest w'
          else
            (case js of
               None \<Rightarrow> sections_image_loop prompt rest w'
             | Some data \<Rightarrow>
                 (case has_images data of
                    Inl e \<Rightarrow> sections_image_loop prompt rest w'
                  | Inr ok \<Rightarrow>
                      if ok then
                        (case first_image data of
                           Inl e \<Rightarrow> sections_image_loop prompt rest w'
                         | Inr b \<Rightarrow> (Some b, w'))
                      else sections_image_loop prompt rest w')))"

definition sections_generate_image :: "string \<Rightarrow> world \<Rightarrow> (error + bytes) \<times> world" where
  "sections_generate_image prompt w =
     (case sections_image_loop prompt sections_image_models w of
        (Some b, w') \<Rightarrow> (Inr b, w')
      | (None, w') \<Rightarrow> (Inl (PyException ''All image models failed''), w'))"

definition sections_video_models :: "string list" where
  "sections_video_models =
     [''sora-2-pro-text-to-video'', ''veo3.1-full-text-to-video'',
      ''kling-2.6-pro-text-to-video'', ''wan-2.6-text-to-video'']"

text \<open>The loop \<^verbatim>\<open>for key in ["video", "url", "videos"]\<close> (lines 160 to 171).\<close>

fun sections_scan_keys :: "string list \<Rightarrow> json \<Rightarrow> world \<Rightarrow> outcome \<times> world" where
  "sections_scan_keys [] data w = (FellThrough, w)"
| "sections_scan_keys (key # keys) data w =
     (case py_in key data of
        Inl e \<Rightarrow> (Raised e, w)
      | Inr present \<Rightarrow>
          if present then
            (case bindE (py_getitem data key) (\<lambda>video_data.
                    case video_data of JList xs \<Rightarrow> py_first video_data | _ \<Rightarrow> Inr video_data) of
               Inl e \<Rightarrow> (Raised e, w)
             | Inr video_data \<Rightarrow>
                 (case video_data of
                    JStr s \<Rightarrow> media_of_str s w
                  | _ \<Rightarrow> sections_scan_keys keys data w))
          else sections_scan_keys keys data w)"

fun sections_video_loop ::
  "string \<Rightarrow> int \<Rightarrow> string list \<Rightarrow> world \<Rightarrow> bytes option \<times> world" where
  "sections_video_loop prompt duration [] w = (None, w)"
| "sections_video_loop prompt duration (model # rest) w =
     (case send (Post VideoGenerate (video_payload model True prompt duration) (Some 180)) w of
        (Raises, w') \<Rightarrow> sections_video_loop prompt duration rest w'
      | (Response st js content, w') \<Rightarrow>
          if st = 429 then sections_video_loop prompt duration rest (sleep 15 w')
          else if is_http_error st then sections_video_loop prompt duration rest w'
          else
            (case js of
               None \<Rightarrow> sections_video_loop prompt duration rest w'
             | Some data \<Rightarrow>
                 (case sections_scan_keys [''video'', ''url'', ''videos''] data w' of
                    (Returned b, w'') \<Rightarrow> (Some b, w'')
                  | (Raised e, w'') \<Rightarrow> sections_video_loop prompt duration rest w''
                  | (FellThrough, w'') \<Rightarrow> sections_video_loop prompt duration rest w'')))"

definition sections_generate_video :: "string \<Rightarrow> int \<Rightarrow> world \<Rightarrow> (error + bytes) \<times> world" where
  "sections_generate_video prompt duration w =
     (case sections_video_loop prompt duration sections_video_models w of
        (Some b, w') \<Rightarrow> (Inr b, w')
      | (None, w') \<Rightarrow> sections_generate_image prompt w')"

section \<open>The earlier client: \<^verbatim>\<open>generate_graeber_video_full.py\<close>, class \<^verbatim>\<open>VeniceAPIClient\<close>\<close>

definition full_image_payload :: "string \<Rightarrow> string \<Rightarrow> payload" where
  "full_image_payload model prompt =
     \<lparr>p_model = model, p_prompt = prompt, p_width = Some 1920, p_height = Some 1080,
      p_duration = None, p_return_binary = Some False, p_hide_watermark = Some True\<rparr>"

text \<open>One request, no \<^verbatim>\<open>try\<close>: every exception reaches the caller.\<close>

definition full_generate_image :: "string \<Rightarrow> string \<Rightarrow> world \<Rightarrow> (error + bytes) \<times> world" where
  "full_generate_image prompt model w =
     (case post_json ImageGenerate (full_image_payload model prompt) None w of
        (Inl e, w') \<Rightarrow> (Inl e, w')
      | (Inr data, w') \<Rightarrow>
          (bindE (has_images data) (\<lambda>ok.
             if ok then first_image data
             else Inl (PyException ''No image data returned from Venice API'')),
           w'))"

definition full_video_payload :: "string \<Rightarrow> string \<Rightarrow> payload" where
  "full_video_payload model prompt =
     \<lparr>p_model = model, p_prompt = prompt, p_width = Some 1920, p_height = Some 1080,
      p_duration = None, p_return_binary = None, p_hide_watermark = None\<rparr>"

definition full_video_body :: "json \<Rightarrow> world \<Rightarrow> outcome \<times> world" where
  "full_video_body data w =
     (case py_in ''video'' data of
        Inl e \<Rightarrow> (Raised e, w)
      | Inr has_video \<Rightarrow>
          if has_video then
            (case py_getitem data ''video'' of
               Inl e \<Rightarrow> (Raised e, w)
             | Inr v \<Rightarrow> (case v of JStr s \<Rightarrow> media_of_str s w | _ \<Rightarrow> (FellThrough, w)))
          else
            (case py_in ''url'' data of
               Inl e \<Rightarrow> (Raised e, w)
             | Inr has_url \<Rightarrow>
                 if has_url then
                   (case py_getitem data ''url'' of
                      Inl e \<Rightarrow> (Raised e, w)
                    | Inr u \<Rightarrow>
                        (case requests_get u w of
                           (Inl e, w') \<Rightarrow> (Raised e, w')
                         | (Inr content, w') \<Rightarrow> (Returned content, w')))
                 else (Raised (PyException ''No video data returned''), w)))"

text \<open>Only an \<^verbatim>\<open>HTTPError\<close> with status 404 falls back to the image path; every other
  exception is raised to the caller. A body that runs to the end of the \<^verbatim>\<open>try\<close> makes the
  function return \<^verbatim>\<open>None\<close>, the result \<open>Inr None\<close>.\<close>

definition full_generate_video ::
  "string \<Rightarrow> string \<Rightarrow> world \<Rightarrow> (error + bytes option) \<times> world" where
  "full_generate_video prompt model w =
     (case post_json VideoGenerate (full_video_payload model prompt) (Some 120) w of
        (Inl e, w') \<Rightarrow>
          (case e of
             HTTPError st \<Rightarrow>
               if st = 404 then
                 (case full_generate_image prompt ''fluently-xl'' w' of
                    (r, w'') \<Rightarrow> (map_sum id Some r, w''))
               else (Inl e, w')
           | _ \<Rightarrow> (Inl e, w'))
      | (Inr data, w') \<Rightarrow>
          (case full_video_body data w' of
             (Returned b, w'') \<Rightarrow> (Inr (Some b), w'')
           | (Raised e, w'') \<Rightarrow> (Inl e, w'')
           | (FellThrough, w'') \<Rightarrow> (Inr None, w'')))"

section \<open>The test script: \<^verbatim>\<open>generate_single_image.py\<close>, function \<^verbatim>\<open>generate_image\<close>\<close>

definition single_models :: "string list" where
  "single_models =
     [''nano-banana-pro'', ''hidream'', ''venice-sd35'', ''qwen-image'', ''z-image-turbo'']"

text \<open>\<^verbatim>\<open>output_path.write_bytes(image_data)\<close>.\<close>

definition write_bytes :: "string \<Rightarrow> bytes \<Rightarrow> world \<Rightarrow> world" where
  "write_bytes path content w = w\<lparr>files := (path, content) # files w\<rparr>"

text \<open>The function writes the decoded image itself and returns \<^verbatim>\<open>True\<close>, or \<^verbatim>\<open>False\<close> when
  every model failed. \<^verbatim>\<open>data.keys()\<close> needs a dict. A rate limit goes on without a pause.\<close>

fun single_loop :: "string \<Rightarrow> string \<Rightarrow> string list \<Rightarrow> world \<Rightarrow> bool \<times> world" where
  "single_loop prompt output_file [] w = (False, w)"
| "single_loop prompt output_file (model # rest) w =
     (case send (Post ImageGenerate (image_payload model prompt) (Some 60)) w of
        (Raises, w') \<Rightarrow> single_loop prompt output_file rest w'
      | (Response st js content, w') \<Rightarrow>
          if st = 429 then single_loop prompt output_file rest w'
          else if is_http_error st then single_loop prompt output_file rest w'
          else
            (case js of
               Some (JObj kvs) \<Rightarrow>
                 (case has_images (JObj kvs) of
                    Inl e \<Rightarrow> single_loop prompt output_file rest w'
                  | Inr ok \<Rightarrow>
                      if ok then
                        (case first_image (JObj kvs) of
                           Inl e \<Rightarrow> single_loop prompt output_file rest w'
                         | Inr image_data \<Rightarrow> (True, write_bytes output_file image_data w'))
                      else single_loop prompt output_file rest w')
             | _ \<Rightarrow> single_loop prompt output_file rest w'))"

definition single_generate_image :: "string \<Rightarrow> string \<Rightarrow> world \<Rightarrow> bool \<times> world" where
  "single_generate_image prompt output_file w =
     single_loop prompt output_file single_models w"

section \<open>Reading a trace\<close>

text \<open>The model identifiers of the POST requests of a trace, in order.\<close>

fun posted :: "event list \<Rightarrow> string list" where
  "posted [] = []"
| "posted (Post ep pl timeout # evs) = p_model pl # posted evs"
| "posted (ev # evs) = posted evs"


text \<open>The status code of the next reply, when it is a response.\<close>

definition next_status :: "world \<Rightarrow> nat option" where
  "next_status w = (case replies w of Response st js content # rs \<Rightarrow> Some st | _ \<Rightarrow> None)"

text \<open>The events of one iteration of the image loop of the main client: one POST, or, when
  the reply was a rate limit, the POST, a pause of 15 seconds and the same POST again.\<close>

definition image_block :: "string \<Rightarrow> string \<Rightarrow> bool \<Rightarrow> event list" where
  "image_block prompt try_model limited =
     (if limited then
        [Post ImageGenerate (image_payload try_model prompt) (Some 60), Sleep 15,
         Post ImageGenerate (image_payload try_model prompt) (Some 60)]
      else [Post ImageGenerate (image_payload try_model prompt) (Some 60)])"

text \<open>\<open>image_pass prompt ms whole evs\<close>: the trace \<open>evs\<close> consists of one block for each
  identifier of \<open>ms\<close>, in order; it may stop after any block unless \<open>whole\<close> is set.\<close>

primrec image_pass :: "string \<Rightarrow> string list \<Rightarrow> bool \<Rightarrow> event list \<Rightarrow> bool" where
  "image_pass prompt [] whole evs = (evs = [])"
| "image_pass prompt (m # ms) whole evs =
     ((evs = [] \<and> \<not> whole)
      \<or> (take 1 evs = image_block prompt m False \<and> image_pass prompt ms whole (drop 1 evs))
      \<or> (take 3 evs = image_block prompt m True \<and> image_pass prompt ms whole (drop 3 evs)))"

text \<open>The errors raised by the operations on JSON values and by the base64 decoder.\<close>

fun data_error :: "error \<Rightarrow> bool" where
  "data_error TypeError = True"
| "data_error KeyError = True"
| "data_error IndexError = True"
| "data_error ValueError = True"
| "data_error BinasciiError = True"
| "data_error e = False"

section \<open>Example scripts and predicates on responses\<close>

text \<open>A network that is down: every request raises.\<close>

definition net_down :: world where
  "net_down = \<lparr>replies = [], trace = [], files = []\<rparr>"



text \<open>A script whose first reply is a rate limit.\<close>

definition rate_limited_first :: world where
  "rate_limited_first = \<lparr>replies = [Response 429 None []], trace = [], files = []\<rparr>"

text \<open>\<^verbatim>\<open>isinstance(x, str)\<close>.\<close>

definition is_str :: "json \<Rightarrow> bool" where
  "is_str x = (case x of JStr s \<Rightarrow> True | _ \<Rightarrow> False)"

text \<open>A response without HTTP error whose body is a dict that binds the key \<^verbatim>\<open>video\<close> to a
  value that is no str.\<close>

definition silent_video :: "reply \<Rightarrow> bool" where
  "silent_video r =
     (case r of
        Response st (Some (JObj kvs)) content \<Rightarrow>
          \<not> is_http_error st \<and>
          (case map_of kvs ''video'' of Some v \<Rightarrow> \<not> is_str v | None \<Rightarrow> False)
      | _ \<Rightarrow> False)"

text \<open>The request of the main video loop for one entry of its list.\<close>

definition video_post :: "string \<Rightarrow> int \<Rightarrow> string \<times> bool \<Rightarrow> event" where
  "video_post prompt duration entry =
     Post VideoGenerate (video_payload (fst entry) (snd entry) prompt duration) (Some 180)"

text \<open>A script of five such responses.\<close>

definition all_silent :: world where
  "all_silent =
     \<lparr>replies = replicate 5 (Response 200 (Some (JObj [(''video'', JAtom)])) []),
      trace = [], files = []\<rparr>"

text \<open>Scripts whose first reply is a 404, and a 500.\<close>

definition not_found_first :: world where
  "not_found_first = \<lparr>replies = [Response 404 None []], trace = [], files = []\<rparr>"

definition server_error_first :: world where
  "server_error_first = \<lparr>replies = [Response 500 None []], trace = [], files = []\<rparr>"

text \<open>A script of four 500 replies.\<close>

definition four_server_errors :: world where
  "four_server_errors = \<lparr>replies = replicate 4 (Response 500 None []), trace = [], files = []\<rparr>"

text \<open>A request to the image endpoint stays within the 1280 by 720 pixels that the comments
  of the main client and of the test script give as the maximum of the service.\<close>

definition within_maximum :: "event \<Rightarrow> bool" where
  "within_maximum ev =
     (case ev of
        Post ImageGenerate pl timeout \<Rightarrow>
          (case (p_width pl, p_height pl) of
             (Some width, Some height) \<Rightarrow> width \<le> 1280 \<and> height \<le> 720
           | _ \<Rightarrow> False)
      | _ \<Rightarrow> True)"

text \<open>A script in which the first identifier returns an image.\<close>

definition first_image_answers :: world where
  "first_image_answers =
     \<lparr>replies = [Response 200 (Some (JObj [(''images'', JList [JStr ''QQ==''])])) []],
      trace = [], files = []\<rparr>"

text \<open>Replies, as the trial loops read them. A reply fails at once when the request raises,
  answers an HTTP error other than a rate limit, or carries no JSON: the iteration ends
  with one request.\<close>

definition fails_at_once :: "reply \<Rightarrow> bool" where
  "fails_at_once r =
     (case r of
        Raises \<Rightarrow> True
      | Response st js content \<Rightarrow>
          (is_http_error st \<and> st \<noteq> 429) \<or> (\<not> is_http_error st \<and> js = None))"

text \<open>A reply that makes \<^verbatim>\<open>requests.post\<close>, \<^verbatim>\<open>raise_for_status\<close> or \<^verbatim>\<open>response.json\<close> raise.\<close>

definition refused :: "reply \<Rightarrow> bool" where
  "refused r =
     (case r of Raises \<Rightarrow> True | Response st js content \<Rightarrow> is_http_error st \<or> js = None)"

text \<open>The dict of a reply without HTTP error; the first element of a list when it is a str;
  the str behind a JSON value.\<close>

fun reply_dict :: "reply \<Rightarrow> (string \<times> json) list option" where
  "reply_dict (Response st (Some (JObj kvs)) content) =
     (if is_http_error st then None else Some kvs)"
| "reply_dict r = None"

fun first_str :: "json \<Rightarrow> string option" where
  "first_str (JList (JStr s # others)) = Some s"
| "first_str x = None"


text \<open>A reply whose images array starts with base64 text that decodes to \<open>b\<close>.\<close>

definition carries_image :: "reply \<Rightarrow> bytes \<Rightarrow> bool" where
  "carries_image r b =
     (case reply_dict r of
        None \<Rightarrow> False
      | Some kvs \<Rightarrow>
          (case map_of kvs ''images'' of
             None \<Rightarrow> False
           | Some v \<Rightarrow>
               (case first_str v of
                  None \<Rightarrow> False
                | Some s \<Rightarrow> b64decode (JStr s) = Inr b)))"


text \<open>The requests of the image loops and of the video loop of the section client.\<close>

definition image_post :: "string \<Rightarrow> string \<Rightarrow> event" where
  "image_post prompt try_model = Post ImageGenerate (image_payload try_model prompt) (Some 60)"


text \<open>Three replies: a server error, an image and a video, both the base64 text of the one
  byte 65.\<close>

definition server_error_reply :: reply where
  "server_error_reply = Response 500 None []"

definition image_reply :: reply where
  "image_reply = Response 200 (Some (JObj [(''images'', JList [JStr ''QQ==''])])) []"


text \<open>Scripts of five server errors followed by an image, and of six server errors.\<close>

definition five_errors_then_image :: world where
  "five_errors_then_image =
     \<lparr>replies = replicate 5 server_error_reply @ [image_reply], trace = [], files = []\<rparr>"

definition six_errors :: world where
  "six_errors = \<lparr>replies = replicate 6 server_error_reply, trace = [], files = []\<rparr>"

text \<open>A reply without HTTP error whose dict has no \<^verbatim>\<open>images\<close> key.\<close>

definition without_image :: "reply \<Rightarrow> bool" where
  "without_image r =
     (case reply_dict r of None \<Rightarrow> False | Some kvs \<Rightarrow> map_of kvs ''images'' = None)"

text \<open>A rate limit, and scripts that start with one.\<close>

definition rate_limit_reply :: reply where
  "rate_limit_reply = Response 429 None []"

definition rate_limited_then_image :: world where
  "rate_limited_then_image =
     \<lparr>replies = [rate_limit_reply, image_reply], trace = [], files = []\<rparr>"

definition rate_limited_twice :: world where
  "rate_limited_twice =
     \<lparr>replies = [rate_limit_reply, rate_limit_reply], trace = [], files = []\<rparr>"

definition always_rate_limited :: world where
  "always_rate_limited = \<lparr>replies = replicate 12 rate_limit_reply, trace = [], files = []\<rparr>"

text \<open>
  A plain URL: \<^verbatim>\<open>http://\<close> or \<^verbatim>\<open>https://\<close>, a host of at most 63 lower-case letters, digits,
  dots and hyphens with no empty label, and then nothing or a path of letters, digits and
  \<^verbatim>\<open>/._~-\<close>. \<^verbatim>\<open>requests\<close> accepts every such text and hands it to the network.
\<close>

definition host_char :: "char \<Rightarrow> bool" where
  "host_char c = (c \<in> set ''abcdefghijklmnopqrstuvwxyz0123456789.-'')"

definition path_char :: "char \<Rightarrow> bool" where
  "path_char c =
     (c \<in> set ''abcdefghijklmnopqrstuvwxyzABCDEFGHIJKLMNOPQRSTUVWXYZ0123456789/._~-'')"

definition plain_host :: "string \<Rightarrow> bool" where
  "plain_host h =
     (h \<noteq> [] \<and> length h \<le> 63 \<and> list_all host_char h \<and> hd h \<notin> set ''.-''
      \<and> last h \<noteq> CHR ''.'' \<and> \<not> sublist ''..'' h)"

definition plain_location :: "string \<Rightarrow> bool" where
  "plain_location r =
     (plain_host (takeWhile host_char r)
      \<and> (dropWhile host_char r = [] \<or> hd (dropWhile host_char r) = CHR ''/'')
      \<and> list_all path_char (dropWhile host_char r))"

definition plain_url :: "string \<Rightarrow> bool" where
  "plain_url u =
     ((take 7 u = ''http://'' \<and> plain_location (drop 7 u))
      \<or> (take 8 u = ''https://'' \<and> plain_location (drop 8 u)))"

text \<open>Scripts that answer with the base64 encoding of \<open>B\<close>, in the images array and in the
  video field.\<close>

definition inline_image_answer :: "bytes \<Rightarrow> world" where
  "inline_image_answer B =
     \<lparr>replies = [Response 200 (Some (JObj [(''images'', JList [JStr (b64encode B)])])) []],
      trace = [], files = []\<rparr>"

definition inline_video_answer :: "bytes \<Rightarrow> world" where
  "inline_video_answer B =
     \<lparr>replies = [Response 200 (Some (JObj [(''video'', JStr (b64encode B))])) []],
      trace = [], files = []\<rparr>"








section \<open>Base64: decoding inverts encoding\<close>

lemma three_is_mask: "(3::8 word) = mask 2"
  by (simp add: mask_eq_exp_minus_1)

lemma fifteen_is_mask: "(15::8 word) = mask 4"
  by (simp add: mask_eq_exp_minus_1)

lemma sixtythree_is_mask: "(63::8 word) = mask 6"
  by (simp add: mask_eq_exp_minus_1)

lemma suc_suc_diff: "2 \<le> n \<Longrightarrow> Suc (Suc (n - 2)) = n"
  by simp

lemma join_first_byte:
  "push_bit 2 (sextet0 a) OR drop_bit 4 (sextet1 a b) = a"
  unfolding sextet0_def sextet1_def three_is_mask
proof (rule bit_word_eqI)
  fix n assume "n < LENGTH(8)"
  then show "bit (push_bit 2 (drop_bit 2 a) OR
      drop_bit 4 (push_bit 4 (a AND mask 2) OR drop_bit 4 b)) n = bit a n"
    by (cases "2 \<le> n") (auto simp: bit_simps suc_suc_diff)
qed

lemma join_second_byte:
  "push_bit 4 (sextet1 a b AND 15) OR drop_bit 2 (sextet2 b c) = b"
  unfolding sextet1_def sextet2_def three_is_mask fifteen_is_mask
proof (rule bit_word_eqI)
  fix n assume "n < LENGTH(8)"
  then show "bit (push_bit 4 ((push_bit 4 (a AND mask 2) OR drop_bit 4 b) AND mask 4) OR
      drop_bit 2 (push_bit 2 (b AND mask 4) OR drop_bit 6 c)) n = bit b n"
    by (cases "4 \<le> n") (auto simp: bit_simps suc_suc_diff)
qed

lemma join_third_byte:
  "push_bit 6 (sextet2 b c AND 3) OR sextet3 c = c"
  unfolding sextet2_def sextet3_def three_is_mask fifteen_is_mask sixtythree_is_mask
proof (rule bit_word_eqI)
  fix n assume "n < LENGTH(8)"
  then show "bit (push_bit 6 ((push_bit 2 (b AND mask 4) OR drop_bit 6 c) AND mask 2) OR
      (c AND mask 6)) n = bit c n"
    by (cases "6 \<le> n") (auto simp: bit_simps suc_suc_diff)
qed

lemma sextet_less: "x AND mask 6 = x \<Longrightarrow> x < (64::8 word)"
  using and_mask_less' [of 6 x] by simp

lemma sextet0_less: "sextet0 a < 64"
  unfolding sextet0_def
  by (rule sextet_less, rule bit_word_eqI) (auto simp: bit_simps dest: bit_imp_le_length)

lemma sextet1_less: "sextet1 a b < 64"
  unfolding sextet1_def three_is_mask
  by (rule sextet_less, rule bit_word_eqI) (auto simp: bit_simps dest: bit_imp_le_length)

lemma sextet2_less: "sextet2 b c < 64"
  unfolding sextet2_def fifteen_is_mask
  by (rule sextet_less, rule bit_word_eqI) (auto simp: bit_simps dest: bit_imp_le_length)

lemma sextet3_less: "sextet3 c < 64"
  unfolding sextet3_def sixtythree_is_mask
  by (rule sextet_less, rule bit_word_eqI) (auto simp: bit_simps dest: bit_imp_le_length)

lemma table_distinct: "distinct table_b2a_base64"
  unfolding table_b2a_base64_def by simp

lemma table_length: "length table_b2a_base64 = 64"
  unfolding table_b2a_base64_def by simp

lemma b2a_in_table: "i < 64 \<Longrightarrow> b2a i \<in> set table_b2a_base64"
  by (simp add: b2a_def table_length word_less_nat_alt)

lemma a2b_b2a: "i < 64 \<Longrightarrow> table_a2b_base64 (b2a i) = Some i"
proof -
  assume "i < 64"
  then have u: "unat i < 64" by (simp add: word_less_nat_alt)
  have "map_of (zip table_b2a_base64 [0..<64]) (table_b2a_base64 ! unat i)
      = Some ([0..<64] ! unat i)"
    by (rule map_of_zip_nth) (use u table_distinct table_length in auto)
  then show ?thesis using u by (simp add: table_a2b_base64_def b2a_def)
qed

lemma b2a_not_pad: "i < 64 \<Longrightarrow> b2a i \<noteq> CHR ''=''"
proof
  assume "i < 64" and "b2a i = CHR ''=''"
  then have "CHR ''='' \<in> set table_b2a_base64" using b2a_in_table by metis
  then show False unfolding table_b2a_base64_def by simp
qed

lemma b2a_ascii: "i < 64 \<Longrightarrow> of_char (b2a i) < (128::nat)"
proof -
  assume "i < 64"
  then have "b2a i \<in> set table_b2a_base64" by (rule b2a_in_table)
  moreover have "\<forall>c \<in> set table_b2a_base64. of_char c < (128::nat)"
    unfolding table_b2a_base64_def by simp
  ultimately show ?thesis by blast
qed

lemmas sextets = sextet0_less sextet1_less sextet2_less sextet3_less

lemmas joins = join_first_byte join_second_byte join_third_byte
  join_first_byte [simplified] join_second_byte [simplified] join_third_byte [simplified]

lemma a2b_base64_b64encode:
  "a2b_base64 0 leftchar pads out (b64encode B) = Inr (out @ B)"
proof (induction B arbitrary: leftchar pads out rule: b64encode.induct)
  case 1
  show ?case by simp
next
  case (2 a)
  show ?case
    by (simp add: a2b_b2a b2a_not_pad sextets joins)
next
  case (3 a b)
  show ?case
    by (simp add: a2b_b2a b2a_not_pad sextets joins)
next
  case (4 a b c rest)
  show ?case
    by (simp add: a2b_b2a b2a_not_pad sextets joins "4.IH")
qed

lemma b64encode_ascii: "list_all (\<lambda>c. of_char c < (128::nat)) (b64encode B)"
  by (induction B rule: b64encode.induct) (simp_all add: b2a_ascii sextets)

lemma b64decode_b64encode: "b64decode (JStr (b64encode B)) = Inr B"
  by (simp add: b64decode_def b64encode_ascii a2b_base64_b64encode)


section \<open>Effects of the requests\<close>


lemma send_effect:
  "send ev w = (r, w') \<Longrightarrow>
     trace w' = trace w @ [ev] \<and> files w' = files w \<and> replies w' = tl (replies w)"
  by (auto simp: send_def split: list.splits)

lemma sleep_effect:
  "trace (sleep n w) = trace w @ [Sleep n] \<and> files (sleep n w) = files w
     \<and> replies (sleep n w) = replies w"
  by (simp add: sleep_def)

lemma post_json_effect:
  "post_json ep pl t w = (r, w') \<Longrightarrow>
     trace w' = trace w @ [Post ep pl t] \<and> files w' = files w \<and> replies w' = tl (replies w)"
  by (auto simp: post_json_def split: prod.splits reply.splits dest: send_effect)

lemma post_json_429:
  "post_json ep pl t w = (r, w') \<Longrightarrow> (r = Inl (HTTPError 429)) = (next_status w = Some 429)"
  by (auto simp: post_json_def send_def next_status_def is_http_error_def
      split: prod.splits reply.splits list.splits option.splits if_splits)

subsection \<open>Errors of the data operations\<close>

lemma a2b_base64_error: "a2b_base64 q l p out s = Inl e \<Longrightarrow> e = BinasciiError"
  by (induction q l p out s rule: a2b_base64.induct) (auto split: if_splits option.splits)

lemma b64decode_error: "b64decode x = Inl e \<Longrightarrow> data_error e"
  by (auto simp: b64decode_def split: json.splits if_splits dest: a2b_base64_error)

lemma py_in_error: "py_in k d = Inl e \<Longrightarrow> data_error e"
  by (auto simp: py_in_def split: json.splits)

lemma py_getitem_error: "py_getitem d k = Inl e \<Longrightarrow> data_error e"
  by (auto simp: py_getitem_def split: json.splits option.splits)

lemma py_len_error: "py_len d = Inl e \<Longrightarrow> data_error e"
  by (auto simp: py_len_def split: json.splits)

lemma py_first_error: "py_first d = Inl e \<Longrightarrow> data_error e"
  by (auto simp: py_first_def split: json.splits list.splits)

lemma has_images_error: "has_images d = Inl e \<Longrightarrow> data_error e"
  by (auto simp: has_images_def bindE_def split: sum.splits if_splits
      dest: py_in_error py_getitem_error py_len_error)

lemma first_image_error: "first_image d = Inl e \<Longrightarrow> data_error e"
  by (auto simp: first_image_def bindE_def split: sum.splits
      dest: py_getitem_error py_first_error b64decode_error)

section \<open>The image loop of the main client\<close>

lemma image_try_effect:
  "image_try pl w = (r, w') \<Longrightarrow>
     trace w' = trace w @ [Post ImageGenerate pl (Some 60)] \<and> files w' = files w
     \<and> replies w' = tl (replies w)"
  by (auto simp: image_try_def split: prod.splits sum.splits dest: post_json_effect)

lemma image_retry_effect:
  "image_retry pl w = (r, w') \<Longrightarrow>
     trace w' = trace w @ [Post ImageGenerate pl (Some 60)] \<and> files w' = files w
     \<and> replies w' = tl (replies w)"
  by (auto simp: image_retry_def split: prod.splits sum.splits dest: post_json_effect)

lemma image_try_429:
  "image_try pl w = (r, w') \<Longrightarrow> (r = Inl (HTTPError 429)) = (next_status w = Some 429)"
proof -
  assume a: "image_try pl w = (r, w')"
  obtain rj wj where pj: "post_json ImageGenerate pl (Some 60) w = (rj, wj)"
    by (cases "post_json ImageGenerate pl (Some 60) w")
  note k = post_json_429 [OF pj]
  show ?thesis
  proof (cases rj)
    case (Inl e)
    with a pj k show ?thesis by (auto simp: image_try_def)
  next
    case (Inr data)
    with k have n: "next_status w \<noteq> Some 429" by simp
    have "r \<noteq> Inl (HTTPError 429)"
      using a pj Inr has_images_error [of data "HTTPError 429"]
        first_image_error [of data "HTTPError 429"]
      by (auto simp: image_try_def bindE_def split: sum.splits if_splits)
    with n show ?thesis by simp
  qed
qed

lemma image_iteration_effect:
  "image_iteration prompt m le w = (r, w') \<Longrightarrow>
     trace w' = trace w @ image_block prompt m (next_status w = Some 429)
     \<and> files w' = files w"
proof -
  assume a: "image_iteration prompt m le w = (r, w')"
  obtain r1 w1 where t: "image_try (image_payload m prompt) w = (r1, w1)"
    by (cases "image_try (image_payload m prompt) w")
  note e1 = image_try_effect [OF t] and k = image_try_429 [OF t]
  show ?thesis
  proof (cases "r1 = Inl (HTTPError 429)")
    case True
    obtain r2 w2 where t2: "image_retry (image_payload m prompt) (sleep 15 w1) = (r2, w2)"
      by (cases "image_retry (image_payload m prompt) (sleep 15 w1)")
    note e2 = image_retry_effect [OF t2]
    from a t True t2 have "w' = w2" by (simp add: image_iteration_def)
    with e1 e2 k True show ?thesis by (simp add: sleep_effect image_block_def)
  next
    case False
    with a t have "w' = w1"
      by (auto simp: image_iteration_def split: sum.splits error.splits if_splits prod.splits)
    with e1 k False show ?thesis by (simp add: image_block_def)
  qed
qed

lemma image_pass_block:
  "image_pass prompt ms whole evs \<Longrightarrow>
     image_pass prompt (m # ms) whole (image_block prompt m limited @ evs)"
  by (simp add: image_block_def)

lemma image_pass_stop: "image_pass prompt (m # ms) False (image_block prompt m limited)"
  by (cases ms) (simp_all add: image_block_def)

lemma image_loop_effect:
  "image_loop prompt ms le w = ((r, le'), w') \<Longrightarrow>
     files w' = files w \<and>
     (\<exists>evs. trace w' = trace w @ evs \<and> image_pass prompt ms (r = None) evs)"
proof (induction ms arbitrary: le w)
  case Nil
  then show ?case by simp
next
  case (Cons m ms)
  obtain r1 le1 w1 where it: "image_iteration prompt m le w = ((r1, le1), w1)"
    by (cases "image_iteration prompt m le w") auto
  note e1 = image_iteration_effect [OF it]
  show ?case
  proof (cases r1)
    case None
    with Cons.prems it have "image_loop prompt ms le1 w1 = ((r, le'), w')" by simp
    from Cons.IH [OF this] obtain evs where
      "files w' = files w1" "trace w' = trace w1 @ evs" "image_pass prompt ms (r = None) evs"
      by blast
    with e1 show ?thesis
      using image_pass_block [of prompt ms "r = None" evs m "next_status w = Some 429"]
      by auto
  next
    case (Some b)
    with Cons.prems it have "w' = w1" "r = Some b" by simp_all
    with e1 show ?thesis
      using image_pass_stop [of prompt m ms "next_status w = Some 429"] by auto
  qed
qed

section \<open>Reading the trace of an image pass\<close>

lemma take1: "take 1 evs = [a] \<Longrightarrow> evs = a # drop 1 evs"
  by (cases evs) auto

lemma take3: "take 3 evs = [a, b, c] \<Longrightarrow> evs = a # b # c # drop 3 evs"
  by (metis append_take_drop_id append_Cons append_Nil)

lemma image_pass_cases:
  assumes "image_pass prompt (m # ms) whole evs"
  obtains "evs = []" "\<not> whole"
    | rest where "evs = Post ImageGenerate (image_payload m prompt) (Some 60) # rest"
        "posted evs = m # posted rest" "image_pass prompt ms whole rest"
    | rest where "evs = Post ImageGenerate (image_payload m prompt) (Some 60) # Sleep 15 #
          Post ImageGenerate (image_payload m prompt) (Some 60) # rest"
        "posted evs = m # m # posted rest" "image_pass prompt ms whole rest"
proof -
  from assms consider "evs = []" "\<not> whole"
    | "take 1 evs = image_block prompt m False" "image_pass prompt ms whole (drop 1 evs)"
    | "take 3 evs = image_block prompt m True" "image_pass prompt ms whole (drop 3 evs)"
    by auto
  then show ?thesis
  proof cases
    case 1 then show ?thesis using that(1) by simp
  next
    case 2
    from 2(1) have "take 1 evs = [Post ImageGenerate (image_payload m prompt) (Some 60)]"
      by (simp add: image_block_def)
    from take1 [OF this]
    have e: "evs = Post ImageGenerate (image_payload m prompt) (Some 60) # drop 1 evs" .
    then have "posted evs = m # posted (drop 1 evs)"
      by (metis posted.simps(2) payload.select_convs(1) image_payload_def)
    with e 2(2) show ?thesis using that(2) by blast
  next
    case 3
    from 3(1) have "take 3 evs = [Post ImageGenerate (image_payload m prompt) (Some 60),
        Sleep 15, Post ImageGenerate (image_payload m prompt) (Some 60)]"
      by (simp add: image_block_def)
    from take3 [OF this]
    have e: "evs = Post ImageGenerate (image_payload m prompt) (Some 60) # Sleep 15 #
        Post ImageGenerate (image_payload m prompt) (Some 60) # drop 3 evs" .
    then have "posted evs = m # m # posted (drop 3 evs)"
      by (metis posted.simps(2,4) payload.select_convs(1) image_payload_def)
    with e 3(2) show ?thesis using that(3) by blast
  qed
qed


lemma image_pass_whole_posted:
  "image_pass prompt ms True evs \<Longrightarrow> remdups_adj (posted evs) = remdups_adj ms"
proof (induction ms arbitrary: evs)
  case Nil then show ?case by simp
next
  case (Cons m ms)
  from Cons.prems show ?case
  proof (cases rule: image_pass_cases)
    case 1 then show ?thesis by simp
  next
    case (2 rest)
    from Cons.IH [OF 2(3)] have "remdups_adj (m # posted rest) = remdups_adj (m # ms)"
      by (simp add: remdups_adj_Cons)
    with 2(2) show ?thesis by simp
  next
    case (3 rest)
    from Cons.IH [OF 3(3)] have "remdups_adj (m # posted rest) = remdups_adj (m # ms)"
      by (simp add: remdups_adj_Cons)
    with 3(2) show ?thesis by simp
  qed
qed

lemma count_list_remdups_adj: "count_list (remdups_adj xs) a \<le> count_list xs a"
  by (induction xs rule: remdups_adj.induct) auto

lemma generate_image_loop:
  obtains r le where
    "image_loop prompt (image_models_to_try model) None w
       = ((r, le), snd (generate_image prompt model w))"
    "(r = None) = isl (fst (generate_image prompt model w))"
  by (cases "image_loop prompt (image_models_to_try model) None w")
    (auto simp: generate_image_def split: option.splits)

lemma generate_image_effect:
  "files (snd (generate_image prompt model w)) = files w \<and>
   trace (snd (generate_image prompt model w))
     = trace w @ emitted w (snd (generate_image prompt model w)) \<and>
   image_pass prompt (image_models_to_try model) (isl (fst (generate_image prompt model w)))
     (emitted w (snd (generate_image prompt model w)))"
proof -
  obtain r le where l: "image_loop prompt (image_models_to_try model) None w
       = ((r, le), snd (generate_image prompt model w))"
    and f: "(r = None) = isl (fst (generate_image prompt model w))"
    by (rule generate_image_loop)
  from image_loop_effect [OF l] f show ?thesis by (auto simp: emitted_def)
qed


section \<open>The video loop of the main client and the loops of the section client\<close>

lemma posted_append: "posted (xs @ ys) = posted xs @ posted ys"
  by (induction xs rule: posted.induct) simp_all

lemma requests_get_effect:
  "requests_get u w = (r, w') \<Longrightarrow>
     files w' = files w \<and> (\<exists>evs. trace w' = trace w @ evs \<and> posted evs = [])"
  by (auto simp: requests_get_def split: json.splits prod.splits reply.splits if_splits
      dest!: send_effect)

lemma media_of_str_effect:
  "media_of_str s w = (r, w') \<Longrightarrow>
     files w' = files w \<and> (\<exists>evs. trace w' = trace w @ evs \<and> posted evs = [])"
  by (auto simp: media_of_str_def split: if_splits prod.splits sum.splits
      dest!: requests_get_effect)

lemma video_body_effect:
  "video_body data w = (r, w') \<Longrightarrow>
     files w' = files w \<and> (\<exists>evs. trace w' = trace w @ evs \<and> posted evs = [])"
  by (auto simp: video_body_def split: if_splits prod.splits sum.splits json.splits
      dest!: requests_get_effect media_of_str_effect)

lemma video_try_effect:
  "video_try pl w = (r, w') \<Longrightarrow>
     files w' = files w \<and>
     (\<exists>evs. trace w' = trace w @ Post VideoGenerate pl (Some 180) # evs \<and> posted evs = [])"
proof -
  assume a: "video_try pl w = (r, w')"
  obtain rj wj where pj: "post_json VideoGenerate pl (Some 180) w = (rj, wj)"
    by (cases "post_json VideoGenerate pl (Some 180) w")
  note e = post_json_effect [OF pj]
  show ?thesis
  proof (cases rj)
    case (Inl err)
    with a pj have "w' = wj" by (simp add: video_try_def)
    with e show ?thesis by simp
  next
    case (Inr data)
    with a pj have "video_body data wj = (r, w')" by (simp add: video_try_def)
    from video_body_effect [OF this] e show ?thesis by auto
  qed
qed

lemma video_iteration_effect:
  "video_iteration prompt duration entry le w = (r, w') \<Longrightarrow>
     files w' = files w \<and>
     (\<exists>evs. trace w' = trace w @
         Post VideoGenerate (video_payload (fst entry) (snd entry) prompt duration) (Some 180)
           # evs \<and> posted evs = [])"
proof -
  assume a: "video_iteration prompt duration entry le w = (r, w')"
  let ?pl = "video_payload (fst entry) (snd entry) prompt duration"
  obtain r1 w1 where t: "video_try ?pl w = (r1, w1)" by (cases "video_try ?pl w")
  from video_try_effect [OF t] obtain evs where
    e: "files w1 = files w" "trace w1 = trace w @ Post VideoGenerate ?pl (Some 180) # evs"
      "posted evs = []" by blast
  from a t have "w' = w1 \<or> w' = sleep 15 w1"
    by (auto simp: video_iteration_def split: outcome.splits error.splits if_splits)
  then show ?thesis
  proof
    assume "w' = w1" with e show ?thesis by simp
  next
    assume "w' = sleep 15 w1"
    with e have "files w' = files w"
      "trace w' = trace w @ Post VideoGenerate ?pl (Some 180) # (evs @ [Sleep 15])"
      "posted (evs @ [Sleep 15]) = []"
      by (simp_all add: sleep_effect posted_append)
    then show ?thesis by blast
  qed
qed

lemma video_loop_effect:
  "video_loop prompt duration ms le w = ((r, le'), w') \<Longrightarrow>
     files w' = files w \<and>
     (\<exists>evs. trace w' = trace w @ evs \<and> prefix (posted evs) (map fst ms)
        \<and> (r = None \<longrightarrow> posted evs = map fst ms))"
proof (induction ms arbitrary: le w)
  case Nil
  then show ?case by simp
next
  case (Cons entry ms)
  obtain r1 le1 w1 where it: "video_iteration prompt duration entry le w = ((r1, le1), w1)"
    by (cases "video_iteration prompt duration entry le w") auto
  from video_iteration_effect [OF it] obtain e1 where
    e: "files w1 = files w" "trace w1 = trace w @
         Post VideoGenerate (video_payload (fst entry) (snd entry) prompt duration) (Some 180)
           # e1" "posted e1 = []" by blast
  have p1: "posted (Post VideoGenerate (video_payload (fst entry) (snd entry) prompt duration)
      (Some 180) # e1) = [fst entry]"
    using e(3) by (simp add: video_payload_def)
  show ?case
  proof (cases r1)
    case None
    with Cons.prems it have "video_loop prompt duration ms le1 w1 = ((r, le'), w')" by simp
    from Cons.IH [OF this] obtain evs where
      "files w' = files w1" "trace w' = trace w1 @ evs" "prefix (posted evs) (map fst ms)"
      "r = None \<longrightarrow> posted evs = map fst ms"
      by blast
    with e p1 have "files w' = files w"
      "trace w' = trace w @ (Post VideoGenerate (video_payload (fst entry) (snd entry) prompt
          duration) (Some 180) # e1) @ evs"
      "prefix (posted ((Post VideoGenerate (video_payload (fst entry) (snd entry) prompt
          duration) (Some 180) # e1) @ evs)) (map fst (entry # ms))"
      "r = None \<longrightarrow> posted ((Post VideoGenerate (video_payload (fst entry) (snd entry) prompt
          duration) (Some 180) # e1) @ evs) = map fst (entry # ms)"
      by (simp_all add: posted_append video_payload_def)
    then show ?thesis by blast
  next
    case (Some b)
    with Cons.prems it have "w' = w1" "r = Some b" by simp_all
    with e p1 show ?thesis by auto
  qed
qed

lemma sections_image_loop_effect:
  "sections_image_loop prompt ms w = (r, w') \<Longrightarrow>
     files w' = files w \<and>
     (\<exists>evs. trace w' = trace w @ evs \<and> prefix (posted evs) ms
        \<and> (r = None \<longrightarrow> posted evs = ms))"
proof (induction ms arbitrary: w)
  case Nil
  then show ?case by simp
next
  case (Cons m ms)
  let ?ev = "Post ImageGenerate (image_payload m prompt) (Some 60)"
  obtain rp w1 where s: "send ?ev w = (rp, w1)" by (cases "send ?ev w")
  note e = send_effect [OF s]
  from Cons.prems s
  consider (stop) "w' = w1" "r \<noteq> None"
    | (go) "sections_image_loop prompt ms w1 = (r, w')"
    | (nap) "sections_image_loop prompt ms (sleep 15 w1) = (r, w')"
    by (auto split: reply.splits if_splits option.splits sum.splits)
  then show ?case
  proof cases
    case stop
    with e have "files w' = files w" "trace w' = trace w @ [?ev]"
      "prefix (posted [?ev]) (m # ms)" "r = None \<longrightarrow> posted [?ev] = m # ms"
      by (auto simp: image_payload_def)
    then show ?thesis by blast
  next
    case go
    from Cons.IH [OF go] obtain evs where
      "files w' = files w1" "trace w' = trace w1 @ evs" "prefix (posted evs) ms"
      "r = None \<longrightarrow> posted evs = ms" by blast
    with e have "files w' = files w" "trace w' = trace w @ (?ev # evs)"
      "prefix (posted (?ev # evs)) (m # ms)" "r = None \<longrightarrow> posted (?ev # evs) = m # ms"
      by (simp_all add: image_payload_def)
    then show ?thesis by blast
  next
    case nap
    from Cons.IH [OF nap] obtain evs where
      "files w' = files (sleep 15 w1)" "trace w' = trace (sleep 15 w1) @ evs"
      "prefix (posted evs) ms" "r = None \<longrightarrow> posted evs = ms" by blast
    with e have "files w' = files w" "trace w' = trace w @ (?ev # Sleep 15 # evs)"
      "prefix (posted (?ev # Sleep 15 # evs)) (m # ms)"
      "r = None \<longrightarrow> posted (?ev # Sleep 15 # evs) = m # ms"
      by (simp_all add: image_payload_def sleep_effect)
    then show ?thesis by blast
  qed
qed

lemma image_loop_append:
  "image_loop prompt (xs @ ys) le w =
     (case image_loop prompt xs le w of
        ((Some b, l), w') \<Rightarrow> ((Some b, l), w')
      | ((None, l), w') \<Rightarrow> image_loop prompt ys l w')"
  by (induction xs arbitrary: le w) (auto split: prod.splits option.splits)

lemma video_loop_append:
  "video_loop prompt duration (xs @ ys) le w =
     (case video_loop prompt duration xs le w of
        ((Some b, l), w') \<Rightarrow> ((Some b, l), w')
      | ((None, l), w') \<Rightarrow> video_loop prompt duration ys l w')"
  by (induction xs arbitrary: le w) (auto split: prod.splits option.splits)

lemma sections_image_loop_single:
  "sections_image_loop prompt (m # ms) w =
     (case sections_image_loop prompt [m] w of
        (Some b, w') \<Rightarrow> (Some b, w')
      | (None, w') \<Rightarrow> sections_image_loop prompt ms w')"
  by (auto split: prod.splits option.splits reply.splits sum.splits)

lemma sections_image_loop_append:
  "sections_image_loop prompt (xs @ ys) w =
     (case sections_image_loop prompt xs w of
        (Some b, w') \<Rightarrow> (Some b, w')
      | (None, w') \<Rightarrow> sections_image_loop prompt ys w')"
proof (induction xs arbitrary: w)
  case Nil
  show ?case by simp
next
  case (Cons m xs)
  show ?case
    using sections_image_loop_single [of prompt m "xs @ ys" w]
      sections_image_loop_single [of prompt m xs w]
    by (auto simp: Cons.IH split: prod.splits option.splits)
qed


lemma sections_generate_image_loop:
  "\<exists>r. sections_image_loop prompt sections_image_models w
      = (r, snd (sections_generate_image prompt w))"
  by (cases "sections_image_loop prompt sections_image_models w")
    (auto simp: sections_generate_image_def split: option.splits)

section \<open>Rate limits\<close>

lemma video_iteration_429:
  "next_status w = Some 429 \<Longrightarrow>
     video_iteration prompt duration entry le w =
       ((None, Some (HTTPError 429)),
        w\<lparr>replies := tl (replies w),
          trace := trace w @
            [Post VideoGenerate (video_payload (fst entry) (snd entry) prompt duration)
               (Some 180), Sleep 15]\<rparr>)"
  by (auto simp: next_status_def video_iteration_def video_try_def post_json_def send_def
      sleep_def is_http_error_def split: list.splits reply.splits)

lemma image_iteration_429:
  "next_status w = Some 429 \<Longrightarrow>
     image_iteration prompt m le w =
       (case image_retry (image_payload m prompt)
               (sleep 15 (snd (image_try (image_payload m prompt) w))) of
          (r, w') \<Rightarrow> ((r, Some (HTTPError 429)), w'))"
proof -
  assume n: "next_status w = Some 429"
  obtain r1 w1 where t: "image_try (image_payload m prompt) w = (r1, w1)"
    by (cases "image_try (image_payload m prompt) w")
  from image_try_429 [OF t] n have "r1 = Inl (HTTPError 429)" by simp
  with t show ?thesis by (simp add: image_iteration_def)
qed

lemma image_iteration_emitted:
  "emitted w (snd (image_iteration prompt m le w))
     = image_block prompt m (next_status w = Some 429)"
proof -
  obtain r w' where i: "image_iteration prompt m le w = (r, w')"
    by (cases "image_iteration prompt m le w")
  from image_iteration_effect [OF i] i show ?thesis by (simp add: emitted_def)
qed

section \<open>Video responses that carry no str\<close>

lemma video_iteration_silent:
  assumes "replies w = r # rest" and "silent_video r"
  shows "video_iteration prompt duration entry le w =
     ((None, le), w\<lparr>replies := rest, trace := trace w @ [video_post prompt duration entry]\<rparr>)"
proof -
  from assms(2) obtain st kvs content v where
    r: "r = Response st (Some (JObj kvs)) content" and st: "\<not> is_http_error st"
    and v: "map_of kvs ''video'' = Some v" and ns: "\<not> is_str v"
    by (auto simp: silent_video_def split: reply.splits option.splits json.splits)
  from v have "(''video'', v) \<in> set kvs" by (rule map_of_SomeD)
  then have k: "''video'' \<in> fst ` set kvs" by force
  from ns have b: "(case v of JStr s \<Rightarrow> media_of_str s w' | _ \<Rightarrow> (FellThrough, w')) = (FellThrough, w')"
    for w' by (cases v) (simp_all add: is_str_def)
  show ?thesis
    using assms(1) r st v k
    by (simp add: video_iteration_def video_try_def post_json_def send_def video_body_def
        py_in_def py_getitem_def b video_post_def)
qed

lemma video_loop_silent:
  "length rs = length ms \<Longrightarrow> list_all silent_video rs \<Longrightarrow> replies w = rs @ rest \<Longrightarrow>
     video_loop prompt duration ms le w =
       ((None, le),
        w\<lparr>replies := rest, trace := trace w @ map (video_post prompt duration) ms\<rparr>)"
proof (induction ms arbitrary: rs w)
  case Nil
  then show ?case by simp
next
  case (Cons entry ms)
  from Cons.prems(1) obtain r rs' where rs: "rs = r # rs'" by (cases rs) auto
  with Cons.prems have l: "length rs' = length ms" and s: "silent_video r"
    and s': "list_all silent_video rs'" and rp: "replies w = r # (rs' @ rest)"
    by simp_all
  let ?w1 = "w\<lparr>replies := rs' @ rest, trace := trace w @ [video_post prompt duration entry]\<rparr>"
  from video_iteration_silent [OF rp s]
  have it: "video_iteration prompt duration entry le w = ((None, le), ?w1)" .
  have "replies ?w1 = rs' @ rest" by simp
  from Cons.IH [OF l s' this]
  have "video_loop prompt duration ms le ?w1 =
     ((None, le), ?w1\<lparr>replies := rest, trace := trace ?w1 @ map (video_post prompt duration) ms\<rparr>)" .
  with it show ?case by simp
qed

section \<open>The fallback from video to image\<close>

lemma generate_video_fallback:
  assumes "fst (fst (video_loop prompt duration video_models_to_try None w)) = None"
  shows "generate_video prompt duration w =
     generate_image prompt default_image_model
       (snd (video_loop prompt duration video_models_to_try None w))"
  using assms
  by (cases "video_loop prompt duration video_models_to_try None w")
    (auto simp: generate_video_def)

lemma generate_video_error:
  assumes "isl (fst (generate_video prompt duration w))"
  shows "fst (fst (video_loop prompt duration video_models_to_try None w)) = None"
  using assms
  by (cases "video_loop prompt duration video_models_to_try None w")
    (auto simp: generate_video_def split: option.splits)

lemma sections_generate_video_fallback:
  assumes "fst (sections_video_loop prompt duration sections_video_models w) = None"
  shows "sections_generate_video prompt duration w =
     sections_generate_image prompt
       (snd (sections_video_loop prompt duration sections_video_models w))"
  using assms
  by (cases "sections_video_loop prompt duration sections_video_models w")
    (auto simp: sections_generate_video_def)

lemma sections_generate_video_error:
  assumes "isl (fst (sections_generate_video prompt duration w))"
  shows "fst (sections_video_loop prompt duration sections_video_models w) = None"
  using assms
  by (cases "sections_video_loop prompt duration sections_video_models w")
    (auto simp: sections_generate_video_def split: option.splits)

lemma full_generate_video_404:
  assumes "next_status w = Some 404"
  shows "full_generate_video prompt model w =
     (case full_generate_image prompt ''fluently-xl''
             (w\<lparr>replies := tl (replies w),
                trace := trace w @
                  [Post VideoGenerate (full_video_payload model prompt) (Some 120)]\<rparr>) of
        (r, w') \<Rightarrow> (map_sum id Some r, w'))"
  using assms
  by (auto simp: next_status_def full_generate_video_def post_json_def send_def
      is_http_error_def split: list.splits reply.splits)

lemma full_generate_video_other:
  assumes "next_status w = Some st" and "is_http_error st" and "st \<noteq> 404"
  shows "full_generate_video prompt model w =
     (Inl (HTTPError st),
      w\<lparr>replies := tl (replies w),
        trace := trace w @
          [Post VideoGenerate (full_video_payload model prompt) (Some 120)]\<rparr>)"
  using assms
  by (auto simp: next_status_def full_generate_video_def post_json_def send_def
      split: list.splits reply.splits)

section \<open>The error of a failed image pass\<close>

lemma post_json_error:
  "post_json ep pl t w = (Inl e, w') \<Longrightarrow>
     e = RequestException \<or> (\<exists>st. e = HTTPError st) \<or> e = JSONDecodeError"
  by (auto simp: post_json_def split: prod.splits reply.splits if_splits option.splits)

lemma image_try_error:
  "image_try pl w = (Inl e, w') \<Longrightarrow> e \<noteq> PyException ''All image models failed''"
proof
  assume a: "image_try pl w = (Inl e, w')" and g: "e = PyException ''All image models failed''"
  obtain rj wj where pj: "post_json ImageGenerate pl (Some 60) w = (rj, wj)"
    by (cases "post_json ImageGenerate pl (Some 60) w")
  show False
  proof (cases rj)
    case (Inl e')
    with a pj have "e' = e" by (simp add: image_try_def)
    with post_json_error [of ImageGenerate pl "Some 60" w e wj] pj Inl g show False by auto
  next
    case (Inr data)
    with a pj g has_images_error [of data e] first_image_error [of data e]
    show False
      by (auto simp: image_try_def bindE_def split: sum.splits if_splits)
  qed
qed

lemma image_iteration_none:
  "image_iteration prompt m le w = ((None, le'), w') \<Longrightarrow>
     fst (image_try (image_payload m prompt) w) = Inl (the le') \<and> le' \<noteq> None"
  by (auto simp: image_iteration_def split: prod.splits sum.splits error.splits if_splits)

lemma image_loop_single:
  "image_loop prompt [m] le w = image_iteration prompt m le w"
  by (auto split: prod.splits option.splits)

lemma generate_image_failure:
  assumes "isl (fst (generate_image prompt model w))"
  shows "fst (fst (image_loop prompt (butlast (image_models_to_try model)) None w)) = None
    \<and> fst (generate_image prompt model w) =
        fst (image_try (image_payload model prompt)
              (snd (image_loop prompt (butlast (image_models_to_try model)) None w)))
    \<and> fst (generate_image prompt model w) \<noteq> Inl (PyException ''All image models failed'')"
proof -
  let ?five = "butlast (image_models_to_try model)"
  have split: "image_models_to_try model = ?five @ [model]"
    by (simp add: image_models_to_try_def)
  obtain r le w' where l: "image_loop prompt (image_models_to_try model) None w = ((r, le), w')"
    by (cases "image_loop prompt (image_models_to_try model) None w") auto
  with assms have r: "r = None"
    by (auto simp: generate_image_def split: option.splits)
  obtain r1 le1 w1 where l1: "image_loop prompt ?five None w = ((r1, le1), w1)"
    by (cases "image_loop prompt ?five None w") auto
  from l r have "image_loop prompt (?five @ [model]) None w = ((None, le), w')"
    using split by simp
  with l1 have r1: "r1 = None" and "image_loop prompt [model] le1 w1 = ((None, le), w')"
    by (auto simp: image_loop_append simp del: image_loop.simps split: option.splits)
  then have it: "image_iteration prompt model le1 w1 = ((None, le), w')"
    by (simp only: image_loop_single)
  from image_iteration_none [OF it] obtain e where
    t: "fst (image_try (image_payload model prompt) w1) = Inl e" and le: "le = Some e"
    by (cases le) auto
  from l r le have g: "fst (generate_image prompt model w) = Inl e"
    by (simp add: generate_image_def)
  from t have "image_try (image_payload model prompt) w1
      = (Inl e, snd (image_try (image_payload model prompt) w1))"
    by (metis prod.collapse)
  from image_try_error [OF this] have "e \<noteq> PyException ''All image models failed''" .
  with g t l1 r1 show ?thesis by simp
qed

lemma generate_video_failure:
  assumes "isl (fst (generate_video prompt duration w))"
  shows "fst (generate_video prompt duration w) \<noteq> Inl (PyException ''All image models failed'')"
proof -
  from generate_video_error [OF assms]
  have "fst (fst (video_loop prompt duration video_models_to_try None w)) = None" .
  from generate_video_fallback [OF this]
  have eq: "generate_video prompt duration w =
     generate_image prompt default_image_model
       (snd (video_loop prompt duration video_models_to_try None w))" .
  with assms have "isl (fst (generate_image prompt default_image_model
       (snd (video_loop prompt duration video_models_to_try None w))))" by simp
  from generate_image_failure [OF this]
  have "fst (generate_image prompt default_image_model
       (snd (video_loop prompt duration video_models_to_try None w)))
     \<noteq> Inl (PyException ''All image models failed'')" by blast
  with eq show ?thesis by simp
qed

lemma sections_generate_image_failure:
  assumes "isl (fst (sections_generate_image prompt w))"
  shows "fst (sections_generate_image prompt w) = Inl (PyException ''All image models failed'')"
  using assms
  by (auto simp: sections_generate_image_def split: prod.splits option.splits)

section \<open>Dimensions and files\<close>

lemma image_pass_within_maximum:
  "image_pass prompt ms whole evs \<Longrightarrow> list_all within_maximum evs"
proof (induction ms arbitrary: evs)
  case Nil then show ?case by simp
next
  case (Cons m ms)
  from Cons.prems show ?case
  proof (cases rule: image_pass_cases)
    case 1 then show ?thesis by simp
  next
    case (2 rest)
    with Cons.IH [OF 2(3)] show ?thesis by (simp add: within_maximum_def image_payload_def)
  next
    case (3 rest)
    with Cons.IH [OF 3(3)] show ?thesis by (simp add: within_maximum_def image_payload_def)
  qed
qed

lemma full_generate_image_effect:
  "trace (snd (full_generate_image prompt model w)) =
     trace w @ [Post ImageGenerate (full_image_payload model prompt) None]
   \<and> files (snd (full_generate_image prompt model w)) = files w"
proof -
  obtain rj wj where pj: "post_json ImageGenerate (full_image_payload model prompt) None w = (rj, wj)"
    by (cases "post_json ImageGenerate (full_image_payload model prompt) None w")
  from post_json_effect [OF pj] pj show ?thesis
    by (cases rj) (simp_all add: full_generate_image_def)
qed

lemma generate_video_files: "files (snd (generate_video prompt duration w)) = files w"
proof -
  obtain r le w1 where v: "video_loop prompt duration video_models_to_try None w = ((r, le), w1)"
    by (cases "video_loop prompt duration video_models_to_try None w") auto
  from video_loop_effect [OF v] have f: "files w1 = files w" by blast
  show ?thesis
  proof (cases r)
    case None
    with v have "generate_video prompt duration w = generate_image prompt default_image_model w1"
      by (simp add: generate_video_def)
    with f generate_image_effect [of prompt default_image_model w1] show ?thesis by simp
  next
    case (Some b)
    with v f show ?thesis by (simp add: generate_video_def)
  qed
qed

lemma sections_generate_image_files:
  "files (snd (sections_generate_image prompt w)) = files w"
proof -
  obtain r where "sections_image_loop prompt sections_image_models w
      = (r, snd (sections_generate_image prompt w))"
    using sections_generate_image_loop by blast
  from sections_image_loop_effect [OF this] show ?thesis by blast
qed

lemma sections_scan_keys_files:
  "sections_scan_keys keys data w = (r, w') \<Longrightarrow> files w' = files w"
proof (induction keys arbitrary: w)
  case Nil then show ?case by simp
next
  case (Cons key keys)
  from Cons.prems consider "w' = w"
    | s where "media_of_str s w = (r, w')"
    | "sections_scan_keys keys data w = (r, w')"
    by (auto split: sum.splits if_splits json.splits)
  then show ?case
  proof cases
    case 1 then show ?thesis by simp
  next
    case 2 from media_of_str_effect [OF 2] show ?thesis by blast
  next
    case 3 from Cons.IH [OF 3] show ?thesis .
  qed
qed

lemma sections_video_loop_files:
  "sections_video_loop prompt duration ms w = (r, w') \<Longrightarrow> files w' = files w"
proof (induction ms arbitrary: w)
  case Nil then show ?case by simp
next
  case (Cons m ms)
  let ?ev = "Post VideoGenerate (video_payload m True prompt duration) (Some 180)"
  obtain rp w1 where s: "send ?ev w = (rp, w1)" by (cases "send ?ev w")
  note e = send_effect [OF s]
  from Cons.prems s
  consider (go) "sections_video_loop prompt duration ms w1 = (r, w')"
    | (nap) "sections_video_loop prompt duration ms (sleep 15 w1) = (r, w')"
    | (scan) data ro w2 where
        "sections_scan_keys [''video'', ''url'', ''videos''] data w1 = (ro, w2)"
        "w' = w2 \<or> sections_video_loop prompt duration ms w2 = (r, w')"
    by (auto simp del: sections_scan_keys.simps
        split: reply.splits if_splits option.splits prod.splits outcome.splits)
  then show ?case
  proof cases
    case go from Cons.IH [OF go] e show ?thesis by simp
  next
    case nap from Cons.IH [OF nap] e show ?thesis by (simp add: sleep_effect)
  next
    case scan
    from sections_scan_keys_files [OF scan(1)] e have "files w2 = files w" by simp
    with scan(2) Cons.IH [of w2] show ?thesis by auto
  qed
qed

lemma sections_generate_video_files:
  "files (snd (sections_generate_video prompt duration w)) = files w"
proof -
  obtain r w1 where v: "sections_video_loop prompt duration sections_video_models w = (r, w1)"
    by (cases "sections_video_loop prompt duration sections_video_models w")
  from sections_video_loop_files [OF v] have f: "files w1 = files w" .
  with v sections_generate_image_files [of prompt w1] show ?thesis
    by (cases r) (simp_all add: sections_generate_video_def)
qed

lemma full_video_body_files:
  "full_video_body data w = (r, w') \<Longrightarrow> files w' = files w"
  by (auto simp: full_video_body_def split: if_splits prod.splits sum.splits json.splits
      dest!: requests_get_effect media_of_str_effect)

lemma full_generate_video_files:
  "files (snd (full_generate_video prompt model w)) = files w"
proof -
  let ?pl = "full_video_payload model prompt"
  obtain rj wj where pj: "post_json VideoGenerate ?pl (Some 120) w = (rj, wj)"
    by (cases "post_json VideoGenerate ?pl (Some 120) w")
  from post_json_effect [OF pj] have f: "files wj = files w" by simp
  show ?thesis
  proof (cases rj)
    case (Inl e)
    with pj f full_generate_image_effect [of prompt "''fluently-xl''" wj] show ?thesis
      by (auto simp: full_generate_video_def split: error.splits prod.splits)
  next
    case (Inr data)
    obtain ro w2 where b: "full_video_body data wj = (ro, w2)"
      by (cases "full_video_body data wj")
    from full_video_body_files [OF b] f have "files w2 = files w" by simp
    with pj Inr b show ?thesis
      by (cases ro) (simp_all add: full_generate_video_def)
  qed
qed

lemma single_loop_files:
  "single_loop prompt output_file ms w = (ok, w') \<Longrightarrow>
     (ok \<longrightarrow> (\<exists>image_data. files w' = (output_file, image_data) # files w))
     \<and> (\<not> ok \<longrightarrow> files w' = files w)"
proof (induction ms arbitrary: w)
  case Nil then show ?case by simp
next
  case (Cons m ms)
  let ?ev = "Post ImageGenerate (image_payload m prompt) (Some 60)"
  obtain rp w1 where s: "send ?ev w = (rp, w1)" by (cases "send ?ev w")
  note e = send_effect [OF s]
  from Cons.prems s
  consider (go) "single_loop prompt output_file ms w1 = (ok, w')"
    | (written) image_data where "ok" "w' = write_bytes output_file image_data w1"
    by (auto split: reply.splits if_splits option.splits sum.splits json.splits)
  then show ?case
  proof cases
    case go from Cons.IH [OF go] e show ?thesis by simp
  next
    case written with e show ?thesis by (simp add: write_bytes_def)
  qed
qed

section \<open>Failures followed by a success\<close>

lemma py_in_dict: "py_in key (JObj kvs) = Inr (map_of kvs key \<noteq> None)"
  by (simp add: py_in_def map_of_eq_None_iff)

lemma py_getitem_dict: "map_of kvs key = Some v \<Longrightarrow> py_getitem (JObj kvs) key = Inr v"
  by (simp add: py_getitem_def)

lemma reply_dictD:
  "reply_dict r = Some kvs \<Longrightarrow>
     \<exists>st content. r = Response st (Some (JObj kvs)) content \<and> \<not> is_http_error st"
  by (cases r rule: reply_dict.cases) (auto split: if_splits)

lemma first_strD: "first_str v = Some s \<Longrightarrow> \<exists>others. v = JList (JStr s # others)"
  by (cases v rule: first_str.cases) auto


lemma carries_imageD:
  assumes "carries_image r b"
  obtains st kvs content s others where "r = Response st (Some (JObj kvs)) content"
    "\<not> is_http_error st" "map_of kvs ''images'' = Some (JList (JStr s # others))"
    "b64decode (JStr s) = Inr b"
proof -
  from assms obtain kvs v s where "reply_dict r = Some kvs" "map_of kvs ''images'' = Some v"
    "first_str v = Some s" "b64decode (JStr s) = Inr b"
    by (auto simp: carries_image_def split: option.splits)
  with reply_dictD [of r kvs] first_strD [of v s] that show ?thesis by blast
qed


lemma carries_image_body:
  assumes "carries_image (Response st (Some data) content) b"
  shows "has_images data = Inr True \<and> first_image data = Inr b \<and> \<not> is_http_error st"
  using assms
  by (auto elim!: carries_imageD
      simp: has_images_def first_image_def bindE_def py_in_dict py_getitem_dict py_len_def
        py_first_def)

lemma carries_image_response:
  assumes "carries_image r b"
  obtains st data content where "r = Response st (Some data) content"
  using assms by (auto elim!: carries_imageD)

lemma post_json_carries_image:
  assumes "replies w = r # rs" and "carries_image r b"
  obtains data where
    "post_json ep pl t w = (Inr data, w\<lparr>replies := rs, trace := trace w @ [Post ep pl t]\<rparr>)"
    "has_images data = Inr True" "first_image data = Inr b"
proof -
  from assms(2) obtain st data content where r: "r = Response st (Some data) content"
    by (rule carries_image_response)
  from assms(2) r carries_image_body have b: "has_images data = Inr True"
    "first_image data = Inr b" "\<not> is_http_error st" by blast+
  with assms(1) r have "post_json ep pl t w =
      (Inr data, w\<lparr>replies := rs, trace := trace w @ [Post ep pl t]\<rparr>)"
    by (simp add: post_json_def send_def)
  with b that show ?thesis by blast
qed

lemma post_json_refused:
  assumes "replies w = r # rs" and "refused r"
  shows "\<exists>e. post_json ep pl t w =
     (Inl e, w\<lparr>replies := rs, trace := trace w @ [Post ep pl t]\<rparr>)"
  using assms
  by (auto simp: refused_def post_json_def send_def split: reply.splits)

lemma post_json_fails_at_once:
  assumes "replies w = r # rs" and "fails_at_once r"
  shows "\<exists>e. post_json ep pl t w =
     (Inl e, w\<lparr>replies := rs, trace := trace w @ [Post ep pl t]\<rparr>) \<and> e \<noteq> HTTPError 429"
  using assms
  by (auto simp: fails_at_once_def post_json_def send_def split: reply.splits)

lemma image_iteration_success:
  assumes "replies w = r # rs" and "carries_image r b"
  shows "image_iteration prompt m le w =
     ((Some b, le), w\<lparr>replies := rs, trace := trace w @ [image_post prompt m]\<rparr>)"
proof -
  from assms obtain data where
    "post_json ImageGenerate (image_payload m prompt) (Some 60) w =
       (Inr data, w\<lparr>replies := rs,
          trace := trace w @ [Post ImageGenerate (image_payload m prompt) (Some 60)]\<rparr>)"
    "has_images data = Inr True" "first_image data = Inr b"
    by (rule post_json_carries_image)
  then show ?thesis
    by (simp add: image_iteration_def image_try_def bindE_def image_post_def)
qed

lemma image_iteration_failure:
  assumes "replies w = r # rs" and "fails_at_once r"
  shows "\<exists>e. image_iteration prompt m le w =
     ((None, Some e), w\<lparr>replies := rs, trace := trace w @ [image_post prompt m]\<rparr>)"
proof -
  from post_json_fails_at_once [OF assms] obtain e where
    "post_json ImageGenerate (image_payload m prompt) (Some 60) w =
       (Inl e, w\<lparr>replies := rs,
          trace := trace w @ [Post ImageGenerate (image_payload m prompt) (Some 60)]\<rparr>)"
    "e \<noteq> HTTPError 429"
    by blast
  then show ?thesis
    by (cases e) (auto simp: image_iteration_def image_try_def image_post_def)
qed

lemma image_try_rate_limited:
  assumes "replies w = Response 429 js content # rs"
  shows "image_try pl w =
     (Inl (HTTPError 429), w\<lparr>replies := rs, trace := trace w @ [Post ImageGenerate pl (Some 60)]\<rparr>)"
  using assms by (simp add: image_try_def post_json_def send_def is_http_error_def)

lemma image_retry_success:
  assumes "replies w = r # rs" and "carries_image r b"
  shows "image_retry pl w =
     (Some b, w\<lparr>replies := rs, trace := trace w @ [Post ImageGenerate pl (Some 60)]\<rparr>)"
proof -
  from assms obtain data where
    "post_json ImageGenerate pl (Some 60) w =
       (Inr data, w\<lparr>replies := rs, trace := trace w @ [Post ImageGenerate pl (Some 60)]\<rparr>)"
    "has_images data = Inr True" "first_image data = Inr b"
    by (rule post_json_carries_image)
  then show ?thesis by (simp add: image_retry_def)
qed

lemma image_retry_refused:
  assumes "replies w = r # rs" and "refused r"
  shows "image_retry pl w =
     (None, w\<lparr>replies := rs, trace := trace w @ [Post ImageGenerate pl (Some 60)]\<rparr>)"
proof -
  from post_json_refused [OF assms] obtain e where
    "post_json ImageGenerate pl (Some 60) w =
       (Inl e, w\<lparr>replies := rs, trace := trace w @ [Post ImageGenerate pl (Some 60)]\<rparr>)"
    by blast
  then show ?thesis by (simp add: image_retry_def)
qed

lemma image_iteration_retry_success:
  assumes "replies w = Response 429 js content # r2 # rs" and "carries_image r2 b"
  shows "image_iteration prompt m le w =
     ((Some b, Some (HTTPError 429)),
      w\<lparr>replies := rs, trace := trace w @ image_block prompt m True\<rparr>)"
proof -
  let ?pl = "image_payload m prompt"
  let ?w1 = "w\<lparr>replies := r2 # rs, trace := trace w @ [Post ImageGenerate ?pl (Some 60)]\<rparr>"
  from assms(1) have t: "image_try ?pl w = (Inl (HTTPError 429), ?w1)"
    by (rule image_try_rate_limited)
  have "replies (sleep 15 ?w1) = r2 # rs" by (simp add: sleep_def)
  from image_retry_success [OF this assms(2)]
  have "image_retry ?pl (sleep 15 ?w1) =
     (Some b, (sleep 15 ?w1)\<lparr>replies := rs,
        trace := trace (sleep 15 ?w1) @ [Post ImageGenerate ?pl (Some 60)]\<rparr>)" .
  with t show ?thesis by (simp add: image_iteration_def sleep_def image_block_def)
qed

lemma image_iteration_retry_refused:
  assumes "replies w = Response 429 js content # r2 # rs" and "refused r2"
  shows "image_iteration prompt m le w =
     ((None, Some (HTTPError 429)),
      w\<lparr>replies := rs, trace := trace w @ image_block prompt m True\<rparr>)"
proof -
  let ?pl = "image_payload m prompt"
  let ?w1 = "w\<lparr>replies := r2 # rs, trace := trace w @ [Post ImageGenerate ?pl (Some 60)]\<rparr>"
  from assms(1) have t: "image_try ?pl w = (Inl (HTTPError 429), ?w1)"
    by (rule image_try_rate_limited)
  have "replies (sleep 15 ?w1) = r2 # rs" by (simp add: sleep_def)
  from image_retry_refused [OF this assms(2)]
  have "image_retry ?pl (sleep 15 ?w1) =
     (None, (sleep 15 ?w1)\<lparr>replies := rs,
        trace := trace (sleep 15 ?w1) @ [Post ImageGenerate ?pl (Some 60)]\<rparr>)" .
  with t show ?thesis by (simp add: image_iteration_def sleep_def image_block_def)
qed

lemma image_loop_after_failures:
  "list_all fails_at_once fs \<Longrightarrow> length fs < length ms \<Longrightarrow> replies w = fs @ r # rest \<Longrightarrow>
   carries_image r b \<Longrightarrow>
     \<exists>le'. image_loop prompt ms le w =
       ((Some b, le'),
        w\<lparr>replies := rest,
          trace := trace w @ map (image_post prompt) (take (Suc (length fs)) ms)\<rparr>)"
proof (induction fs arbitrary: ms le w)
  case Nil
  then obtain m ms' where ms: "ms = m # ms'" by (cases ms) auto
  from Nil have "replies w = r # rest" by simp
  from image_iteration_success [OF this Nil.prems(4)] ms show ?case by simp
next
  case (Cons f fs)
  then obtain m ms' where ms: "ms = m # ms'" by (cases ms) auto
  from Cons.prems have f: "fails_at_once f" and fs: "list_all fails_at_once fs"
    and l: "length fs < length ms'" and rp: "replies w = f # (fs @ r # rest)"
    using ms by simp_all
  let ?w1 = "w\<lparr>replies := fs @ r # rest, trace := trace w @ [image_post prompt m]\<rparr>"
  from image_iteration_failure [OF rp f] obtain e where
    it: "image_iteration prompt m le w = ((None, Some e), ?w1)" by blast
  have "replies ?w1 = fs @ r # rest" by simp
  from Cons.IH [OF fs l this Cons.prems(4)] obtain le' where
    "image_loop prompt ms' (Some e) ?w1 =
       ((Some b, le'),
        ?w1\<lparr>replies := rest,
          trace := trace ?w1 @ map (image_post prompt) (take (Suc (length fs)) ms')\<rparr>)"
    by blast
  with it ms show ?case by simp
qed

lemma image_loop_all_failures:
  "list_all fails_at_once fs \<Longrightarrow> length fs = length ms \<Longrightarrow> replies w = fs @ rest \<Longrightarrow>
   fs \<noteq> [] \<Longrightarrow>
     \<exists>e. image_loop prompt ms le w =
       ((None, Some e),
        w\<lparr>replies := rest, trace := trace w @ map (image_post prompt) ms\<rparr>)"
proof (induction fs arbitrary: ms le w)
  case Nil
  then show ?case by simp
next
  case (Cons f fs)
  then obtain m ms' where ms: "ms = m # ms'" by (cases ms) auto
  from Cons.prems have f: "fails_at_once f" and fs: "list_all fails_at_once fs"
    and l: "length fs = length ms'" and rp: "replies w = f # (fs @ rest)"
    using ms by simp_all
  let ?w1 = "w\<lparr>replies := fs @ rest, trace := trace w @ [image_post prompt m]\<rparr>"
  from image_iteration_failure [OF rp f] obtain e where
    it: "image_iteration prompt m le w = ((None, Some e), ?w1)" by blast
  show ?case
  proof (cases fs)
    case Nil
    with l have "ms' = []" by simp
    with it ms Nil show ?thesis by simp
  next
    case (Cons f' fs')
    then have ne: "fs \<noteq> []" by simp
    have "replies ?w1 = fs @ rest" by simp
    from Cons.IH [OF fs l this ne] obtain e' where
      "image_loop prompt ms' (Some e) ?w1 =
         ((None, Some e'),
          ?w1\<lparr>replies := rest, trace := trace ?w1 @ map (image_post prompt) ms'\<rparr>)"
      by blast
    with it ms show ?thesis by simp
  qed
qed

lemma generate_image_after_failures:
  assumes "replies w = fs @ r # rest" and "list_all fails_at_once fs"
    and "length fs < length (image_models_to_try model)" and "carries_image r b"
  shows "generate_image prompt model w =
     (Inr b,
      w\<lparr>replies := rest,
        trace := trace w @
          map (image_post prompt) (take (Suc (length fs)) (image_models_to_try model))\<rparr>)"
proof -
  from image_loop_after_failures [OF assms(2,3,1,4)] obtain le' where
    "image_loop prompt (image_models_to_try model) None w =
       ((Some b, le'),
        w\<lparr>replies := rest,
          trace := trace w @
            map (image_post prompt) (take (Suc (length fs)) (image_models_to_try model))\<rparr>)"
    by blast
  then show ?thesis by (simp add: generate_image_def)
qed

lemma generate_image_all_failures:
  assumes "replies w = fs @ rest" and "list_all fails_at_once fs"
    and "length fs = length (image_models_to_try model)"
  shows "isl (fst (generate_image prompt model w)) \<and>
     snd (generate_image prompt model w) =
       w\<lparr>replies := rest,
         trace := trace w @ map (image_post prompt) (image_models_to_try model)\<rparr>"
proof -
  from assms(3) have "fs \<noteq> []" by (auto simp: image_models_to_try_def)
  from image_loop_all_failures [OF assms(2,3,1) this] obtain e where
    "image_loop prompt (image_models_to_try model) None w =
       ((None, Some e),
        w\<lparr>replies := rest,
          trace := trace w @ map (image_post prompt) (image_models_to_try model)\<rparr>)"
    by blast
  then show ?thesis by (simp add: generate_image_def)
qed
















section \<open>The order of the requests of a call\<close>







section \<open>The last entry of the image list\<close>

lemma image_pass_whole_last:
  "image_pass prompt ms True evs \<Longrightarrow> ms \<noteq> [] \<Longrightarrow>
     posted evs \<noteq> [] \<and> last (posted evs) = last ms"
proof (induction ms arbitrary: evs)
  case Nil then show ?case by simp
next
  case (Cons m ms)
  from Cons.prems(1) show ?case
  proof (cases rule: image_pass_cases)
    case 1 then show ?thesis by simp
  next
    case (2 rest)
    show ?thesis
    proof (cases ms)
      case Nil
      with 2 show ?thesis by simp
    next
      case (Cons m' ms')
      with Cons.IH [OF 2(3)] 2(2) show ?thesis by simp
    qed
  next
    case (3 rest)
    show ?thesis
    proof (cases ms)
      case Nil
      with 3 show ?thesis by simp
    next
      case (Cons m' ms')
      with Cons.IH [OF 3(3)] 3(2) show ?thesis by simp
    qed
  qed
qed

lemma generate_image_failed_pass:
  assumes "isl (fst (generate_image prompt model w))"
  shows "image_pass prompt (image_models_to_try model) True
       (emitted w (snd (generate_image prompt model w)))
    \<and> remdups_adj (posted (emitted w (snd (generate_image prompt model w))))
        = remdups_adj (image_models_to_try model)
    \<and> last (posted (emitted w (snd (generate_image prompt model w)))) = model"
proof -
  from generate_image_effect [of prompt model w] assms
  have p: "image_pass prompt (image_models_to_try model) True
       (emitted w (snd (generate_image prompt model w)))" by simp
  have "image_models_to_try model \<noteq> []" "last (image_models_to_try model) = model"
    by (simp_all add: image_models_to_try_def)
  with image_pass_whole_last [OF p] image_pass_whole_posted [OF p] p show ?thesis by simp
qed

lemma generate_image_default_failed:
  assumes "isl (fst (generate_image prompt default_image_model w))"
  shows "remdups_adj (posted (emitted w (snd (generate_image prompt default_image_model w))))
          = image_models_to_try default_image_model
        \<and> 2 \<le> count_list (posted (emitted w (snd (generate_image prompt default_image_model w))))
              ''nano-banana-pro''"
proof -
  let ?xs = "posted (emitted w (snd (generate_image prompt default_image_model w)))"
  from generate_image_failed_pass [OF assms]
  have r: "remdups_adj ?xs = image_models_to_try default_image_model"
    by (simp add: image_models_to_try_def default_image_model_def)
  have "count_list (image_models_to_try default_image_model) ''nano-banana-pro'' = 2"
    by (simp add: image_models_to_try_def default_image_model_def)
  with r count_list_remdups_adj [of ?xs "''nano-banana-pro''"]
  have "2 \<le> count_list ?xs ''nano-banana-pro''" by simp
  with r show ?thesis by simp
qed

lemma generate_image_sixth:
  assumes "replies w = fs @ r # rest" and "list_all fails_at_once fs" and "length fs = 5"
    and "carries_image r b"
  shows "generate_image prompt model w =
     (Inr b,
      w\<lparr>replies := rest,
        trace := trace w @
          map (image_post prompt)
            [''nano-banana-pro'', ''hidream'', ''venice-sd35'', ''qwen-image'',
             ''z-image-turbo'']
          @ [image_post prompt model]\<rparr>)"
proof -
  from assms(3) have "length fs < length (image_models_to_try model)"
    by (simp add: image_models_to_try_def)
  from generate_image_after_failures [OF assms(1,2) this assms(4)] assms(3)
  show ?thesis by (simp add: image_models_to_try_def)
qed

lemma generate_image_six_failures:
  assumes "replies w = fs @ rest" and "list_all fails_at_once fs" and "length fs = 6"
  shows "isl (fst (generate_image prompt model w)) \<and>
     snd (generate_image prompt model w) =
       w\<lparr>replies := rest,
         trace := trace w @
           map (image_post prompt)
             [''nano-banana-pro'', ''hidream'', ''venice-sd35'', ''qwen-image'',
              ''z-image-turbo'']
           @ [image_post prompt model]\<rparr>"
proof -
  from assms(3) have "length fs = length (image_models_to_try model)"
    by (simp add: image_models_to_try_def)
  from generate_image_all_failures [OF assms(1,2) this]
  show ?thesis by (simp add: image_models_to_try_def)
qed

section \<open>The retry after a rate limit\<close>

lemma image_retry_without_image:
  assumes "replies w = r # rs" and "without_image r"
  shows "image_retry pl w =
     (None, w\<lparr>replies := rs, trace := trace w @ [Post ImageGenerate pl (Some 60)]\<rparr>)"
proof -
  from assms(2) obtain kvs where d: "reply_dict r = Some kvs" and n: "map_of kvs ''images'' = None"
    by (auto simp: without_image_def split: option.splits)
  from reply_dictD [OF d] obtain st content where
    r: "r = Response st (Some (JObj kvs)) content" "\<not> is_http_error st" by blast
  with assms(1) have "post_json ImageGenerate pl (Some 60) w =
      (Inr (JObj kvs), w\<lparr>replies := rs, trace := trace w @ [Post ImageGenerate pl (Some 60)]\<rparr>)"
    by (simp add: post_json_def send_def)
  with n show ?thesis by (simp add: image_retry_def has_images_def bindE_def py_in_dict)
qed

lemma image_iteration_retry_failed:
  assumes "replies w = Response 429 js content # r2 # rs" and "refused r2 \<or> without_image r2"
  shows "image_iteration prompt m le w =
     ((None, Some (HTTPError 429)),
      w\<lparr>replies := rs, trace := trace w @ image_block prompt m True\<rparr>)"
proof -
  let ?pl = "image_payload m prompt"
  let ?w1 = "w\<lparr>replies := r2 # rs, trace := trace w @ [Post ImageGenerate ?pl (Some 60)]\<rparr>"
  from assms(1) have t: "image_try ?pl w = (Inl (HTTPError 429), ?w1)"
    by (rule image_try_rate_limited)
  have rp: "replies (sleep 15 ?w1) = r2 # rs" by (simp add: sleep_def)
  from assms(2) image_retry_refused [OF rp] image_retry_without_image [OF rp]
  have "image_retry ?pl (sleep 15 ?w1) =
     (None, (sleep 15 ?w1)\<lparr>replies := rs,
        trace := trace (sleep 15 ?w1) @ [Post ImageGenerate ?pl (Some 60)]\<rparr>)"
    by blast
  with t show ?thesis by (simp add: image_iteration_def sleep_def image_block_def)
qed

lemma generate_image_retry_success:
  assumes "replies w = Response 429 js content # r2 # rs" and "carries_image r2 b"
  shows "generate_image prompt model w =
     (Inr b, w\<lparr>replies := rs, trace := trace w @ image_block prompt ''nano-banana-pro'' True\<rparr>)"
  using image_iteration_retry_success [OF assms, of prompt "''nano-banana-pro''" None]
  by (simp add: generate_image_def image_models_to_try_def)

lemma image_loop_retry_failed:
  assumes "replies w = Response 429 js content # r2 # rs" and "refused r2 \<or> without_image r2"
  shows "image_loop prompt (m # ms) le w =
     image_loop prompt ms (Some (HTTPError 429))
       (w\<lparr>replies := rs, trace := trace w @ image_block prompt m True\<rparr>)"
  using image_iteration_retry_failed [OF assms, of prompt m le] by simp

lemma video_iteration_rate_limited:
  "next_status w = Some 429 \<Longrightarrow>
     video_iteration prompt duration entry le w =
       ((None, Some (HTTPError 429)),
        w\<lparr>replies := tl (replies w),
          trace := trace w @ [video_post prompt duration entry, Sleep 15]\<rparr>)"
  using video_iteration_429 [of w prompt duration entry le] by (simp add: video_post_def)

lemma video_loop_rate_limited:
  "next_status w = Some 429 \<Longrightarrow>
     video_loop prompt duration (entry # entries) le w =
       video_loop prompt duration entries (Some (HTTPError 429))
         (w\<lparr>replies := tl (replies w),
            trace := trace w @ [video_post prompt duration entry, Sleep 15]\<rparr>)"
  using video_iteration_rate_limited [of w prompt duration entry le] by simp

section \<open>URLs and inline media\<close>

lemma lstrip_no_space: "s \<noteq> [] \<Longrightarrow> \<not> py_isspace (hd s) \<Longrightarrow> lstrip s = s"
  by (cases s) (simp_all add: lstrip_def)

lemma h_no_space: "\<not> py_isspace CHR ''h''"
  by (simp add: py_isspace_def)



lemma take_prefix_split: "take n u = p \<Longrightarrow> u = p @ drop n u"
  by (metis append_take_drop_id)


lemma plain_url_http: "plain_url u \<Longrightarrow> startswith_http u"
proof -
  assume "plain_url u"
  then consider "take 7 u = ''http://''" | "take 8 u = ''https://''"
    by (auto simp: plain_url_def)
  then show ?thesis
  proof cases
    case 1
    from take_prefix_split [OF 1] obtain t where "u = ''http://'' @ t" by blast
    then show ?thesis by (simp add: startswith_http_def)
  next
    case 2
    from take_prefix_split [OF 2] obtain t where "u = ''https://'' @ t" by blast
    then show ?thesis by (simp add: startswith_http_def)
  qed
qed

text \<open>Base64 text holds no colon, so it is never a URL.\<close>

lemma b64encode_chars:
  "c \<in> set (b64encode B) \<Longrightarrow> c \<in> set table_b2a_base64 \<or> c = CHR ''=''"
  by (induction B rule: b64encode.induct) (auto simp: b2a_in_table sextets)

lemma lower_ascii_colon: "lower_ascii c = CHR '':'' \<Longrightarrow> c = CHR '':''"
proof (rule ccontr)
  assume a: "lower_ascii c = CHR '':''" and n: "c \<noteq> CHR '':''"
  then have u: "65 \<le> (of_char c :: nat)" "(of_char c :: nat) \<le> 90"
    and l: "lower_ascii c = char_of (of_char c + 32 :: nat)"
    by (auto simp: lower_ascii_def split: if_splits)
  from l have "(of_char (lower_ascii c) :: nat) = (of_char c + 32) mod 256" by simp
  with a u show False by simp
qed

lemma base64_char_plain:
  "c \<in> set table_b2a_base64 \<or> c = CHR ''='' \<Longrightarrow> lower_ascii c \<noteq> CHR '':''"
proof
  assume "c \<in> set table_b2a_base64 \<or> c = CHR ''=''" and "lower_ascii c = CHR '':''"
  then have "CHR '':'' \<in> set table_b2a_base64 \<or> CHR '':'' = CHR ''=''"
    using lower_ascii_colon by blast
  then show False by (simp add: table_b2a_base64_def)
qed

lemma b64encode_no_colon: "CHR '':'' \<notin> set (map lower_ascii (lstrip (b64encode B)))"
proof
  assume "CHR '':'' \<in> set (map lower_ascii (lstrip (b64encode B)))"
  then obtain c where c: "c \<in> set (lstrip (b64encode B))" "lower_ascii c = CHR '':''" by auto
  from c(1) have "c \<in> set (b64encode B)" by (auto simp: lstrip_def dest: set_dropWhileD)
  with b64encode_chars base64_char_plain c(2) show False by blast
qed

lemma b64encode_rejected: "rejected_url (b64encode B)"
proof -
  let ?l = "map lower_ascii (lstrip (b64encode B))"
  have "take 7 ?l \<noteq> ''http://''"
  proof
    assume "take 7 ?l = ''http://''"
    then have "CHR '':'' \<in> set (take 7 ?l)" by simp
    then have "CHR '':'' \<in> set ?l" by (rule in_set_takeD)
    with b64encode_no_colon show False by blast
  qed
  moreover have "take 8 ?l \<noteq> ''https://''"
  proof
    assume "take 8 ?l = ''https://''"
    then have "CHR '':'' \<in> set (take 8 ?l)" by simp
    then have "CHR '':'' \<in> set ?l" by (rule in_set_takeD)
    with b64encode_no_colon show False by blast
  qed
  ultimately show ?thesis by (simp add: rejected_url_def Let_def)
qed

lemma post_json_success:
  "replies w = Response st (Some data) content # rest \<Longrightarrow> \<not> is_http_error st \<Longrightarrow>
     post_json ep pl t w = (Inr data, w\<lparr>replies := rest, trace := trace w @ [Post ep pl t]\<rparr>)"
  by (simp add: post_json_def send_def)

lemma image_try_inline:
  assumes "replies w = Response st (Some (JObj kvs)) content # rest" and "\<not> is_http_error st"
    and "map_of kvs ''images'' = Some (JList (JStr (b64encode B) # others))"
  shows "image_try pl w =
     (Inr B, w\<lparr>replies := rest, trace := trace w @ [Post ImageGenerate pl (Some 60)]\<rparr>)"
  using assms
  by (simp add: image_try_def post_json_success has_images_def first_image_def bindE_def
      py_in_dict py_getitem_dict py_len_def py_first_def b64decode_b64encode)

lemma generate_image_inline:
  assumes "replies w = Response st (Some (JObj kvs)) content # rest" and "\<not> is_http_error st"
    and "map_of kvs ''images'' = Some (JList (JStr (b64encode B) # others))"
  shows "generate_image prompt model w =
     (Inr B, w\<lparr>replies := rest,
              trace := trace w @
                [Post ImageGenerate (image_payload ''nano-banana-pro'' prompt) (Some 60)]\<rparr>)"
  by (simp add: generate_image_def image_models_to_try_def image_iteration_def
      image_try_inline [OF assms])

lemma video_try_inline:
  assumes "replies w = Response st (Some (JObj kvs)) content # rest" and "\<not> is_http_error st"
    and "map_of kvs ''video'' = Some (JStr (b64encode B))"
    and "\<not> startswith_http (b64encode B)"
  shows "video_try pl w =
     (Returned B, w\<lparr>replies := rest, trace := trace w @ [Post VideoGenerate pl (Some 180)]\<rparr>)"
  using assms
  by (simp add: video_try_def post_json_success video_body_def py_in_dict py_getitem_dict
      media_of_str_def b64decode_b64encode)

lemma generate_video_inline:
  assumes "replies w = Response st (Some (JObj kvs)) content # rest" and "\<not> is_http_error st"
    and "map_of kvs ''video'' = Some (JStr (b64encode B))"
    and "\<not> startswith_http (b64encode B)"
  shows "generate_video prompt duration w =
     (Inr B, w\<lparr>replies := rest,
              trace := trace w @ [video_post prompt duration (hd video_models_to_try)]\<rparr>)"
  by (simp add: generate_video_def video_models_to_try_def video_iteration_def video_post_def
      video_try_inline [OF assms])

lemma video_iteration_http_like:
  assumes "replies w = Response st (Some (JObj kvs)) content # rest" and "\<not> is_http_error st"
    and "map_of kvs ''video'' = Some (JStr (b64encode B))"
    and "startswith_http (b64encode B)"
  shows "video_iteration prompt duration entry le w =
     ((None, Some RequestException),
      w\<lparr>replies := rest, trace := trace w @ [video_post prompt duration entry]\<rparr>)"
  using assms b64encode_rejected [of B]
  by (simp add: video_iteration_def video_try_def post_json_success video_body_def py_in_dict
      py_getitem_dict media_of_str_def requests_get_def video_post_def)

section \<open>Embedded URLs\<close>









section \<open>The claims\<close>

text \<open>
  Claim C10. In the video path of the main client a response without HTTP error whose body
  binds \<^verbatim>\<open>video\<close> to a value that is no str makes the iteration neither return nor raise:
  the loop goes on to the next identifier and \<^verbatim>\<open>last_error\<close> keeps its value. A whole pass
  of such responses ends with no error recorded, and \<^verbatim>\<open>generate_video\<close> is then the call of
  the image path.
\<close>

theorem silent_video_responses:
  "(replies w = r # rest \<and> silent_video r \<longrightarrow>
      video_iteration prompt duration entry le w =
        ((None, le),
         w\<lparr>replies := rest, trace := trace w @ [video_post prompt duration entry]\<rparr>))
   \<and> (replies w = rs @ rest \<and> length rs = length video_models_to_try
        \<and> list_all silent_video rs \<longrightarrow>
      video_loop prompt duration video_models_to_try None w =
        ((None, None),
         w\<lparr>replies := rest,
           trace := trace w @ map (video_post prompt duration) video_models_to_try\<rparr>)
      \<and> generate_video prompt duration w =
          generate_image prompt default_image_model
            (w\<lparr>replies := rest,
               trace := trace w @ map (video_post prompt duration) video_models_to_try\<rparr>))"
proof -
  have one: "video_iteration prompt duration entry le w =
        ((None, le),
         w\<lparr>replies := rest, trace := trace w @ [video_post prompt duration entry]\<rparr>)"
    if "replies w = r # rest" "silent_video r"
    using that by (rule video_iteration_silent)
  have pass: "video_loop prompt duration video_models_to_try None w =
        ((None, None),
         w\<lparr>replies := rest,
           trace := trace w @ map (video_post prompt duration) video_models_to_try\<rparr>)"
    if "replies w = rs @ rest" "length rs = length video_models_to_try"
      "list_all silent_video rs"
    using that video_loop_silent by blast
  have fallback: "generate_video prompt duration w =
          generate_image prompt default_image_model
            (w\<lparr>replies := rest,
               trace := trace w @ map (video_post prompt duration) video_models_to_try\<rparr>)"
    if "replies w = rs @ rest" "length rs = length video_models_to_try"
      "list_all silent_video rs"
    using pass [OF that] by (simp add: generate_video_def)
  from one pass fallback show ?thesis by blast
qed

theorem silent_video_responses_witness:
  "replies all_silent = hd (replies all_silent) # tl (replies all_silent)
   \<and> silent_video (hd (replies all_silent))
   \<and> replies all_silent = replies all_silent @ []
   \<and> length (replies all_silent) = length video_models_to_try
   \<and> list_all silent_video (replies all_silent)
   \<and> video_iteration ''P'' 5 (''sora-2-pro-text-to-video'', True) None all_silent =
        ((None, None),
         all_silent\<lparr>replies := tl (replies all_silent),
           trace := trace all_silent @
             [video_post ''P'' 5 (''sora-2-pro-text-to-video'', True)]\<rparr>)
   \<and> video_loop ''P'' 5 video_models_to_try None all_silent =
        ((None, None),
         all_silent\<lparr>replies := [],
           trace := trace all_silent @ map (video_post ''P'' 5) video_models_to_try\<rparr>)
   \<and> generate_video ''P'' 5 all_silent =
          generate_image ''P'' default_image_model
            (all_silent\<lparr>replies := [],
               trace := trace all_silent @ map (video_post ''P'' 5) video_models_to_try\<rparr>)"
proof -
  have h1: "replies all_silent = hd (replies all_silent) # tl (replies all_silent)"
    by code_simp
  have h2: "silent_video (hd (replies all_silent))" by code_simp
  have h3: "replies all_silent = replies all_silent @ []" by simp
  have h4: "length (replies all_silent) = length video_models_to_try" by code_simp
  have h5: "list_all silent_video (replies all_silent)" by code_simp
  from h1 h2 h3 h4 h5
    silent_video_responses [where w = all_silent and r = "hd (replies all_silent)"
      and rest = "tl (replies all_silent)" and prompt = "''P''" and duration = 5
      and entry = "(''sora-2-pro-text-to-video'', True)" and le = None]
    silent_video_responses [where w = all_silent and rs = "replies all_silent"
      and rest = "[]" and prompt = "''P''" and duration = 5]
  show ?thesis by blast
qed

text \<open>
  Claim C1, as amended. In the main client and in the section client, when every
  identifier of the video list has failed, \<^verbatim>\<open>generate_video\<close> is one call of the image path
  with the same prompt, started in the world the video loop left: what the call emits is
  one image pass for that prompt, and what it returns or raises is the result of
  \<^verbatim>\<open>generate_video\<close>; an error reaches the caller only in that case. In the earlier client
  (\<^verbatim>\<open>generate_graeber_video_full.py\<close>) the image path is called only when the video request
  answers 404; any other HTTP error is raised to the caller at once.
\<close>

theorem video_falls_back_to_image:
  "(fst (fst (video_loop prompt duration video_models_to_try None w)) = None \<longrightarrow>
      generate_video prompt duration w =
        generate_image prompt default_image_model
          (snd (video_loop prompt duration video_models_to_try None w))
      \<and> image_pass prompt (image_models_to_try default_image_model)
          (isl (fst (generate_video prompt duration w)))
          (emitted (snd (video_loop prompt duration video_models_to_try None w))
             (snd (generate_video prompt duration w))))
   \<and> (isl (fst (generate_video prompt duration w)) \<longrightarrow>
        fst (fst (video_loop prompt duration video_models_to_try None w)) = None)
   \<and> (fst (sections_video_loop prompt duration sections_video_models w) = None \<longrightarrow>
        sections_generate_video prompt duration w =
          sections_generate_image prompt
            (snd (sections_video_loop prompt duration sections_video_models w)))
   \<and> (isl (fst (sections_generate_video prompt duration w)) \<longrightarrow>
        fst (sections_video_loop prompt duration sections_video_models w) = None)
   \<and> (next_status w = Some 404 \<longrightarrow>
        full_generate_video prompt model w =
          (case full_generate_image prompt ''fluently-xl''
                  (w\<lparr>replies := tl (replies w),
                     trace := trace w @
                       [Post VideoGenerate (full_video_payload model prompt) (Some 120)]\<rparr>) of
             (r, w') \<Rightarrow> (map_sum id Some r, w')))
   \<and> (next_status w = Some st \<and> is_http_error st \<and> st \<noteq> 404 \<longrightarrow>
        full_generate_video prompt model w =
          (Inl (HTTPError st),
           w\<lparr>replies := tl (replies w),
             trace := trace w @
               [Post VideoGenerate (full_video_payload model prompt) (Some 120)]\<rparr>))"
proof -
  have pass: "image_pass prompt (image_models_to_try default_image_model)
          (isl (fst (generate_video prompt duration w)))
          (emitted (snd (video_loop prompt duration video_models_to_try None w))
             (snd (generate_video prompt duration w)))"
    if "fst (fst (video_loop prompt duration video_models_to_try None w)) = None"
    using generate_video_fallback [OF that]
      generate_image_effect [of prompt default_image_model
        "snd (video_loop prompt duration video_models_to_try None w)"]
    by simp
  from pass generate_video_fallback [of prompt duration w]
    generate_video_error [of prompt duration w]
    sections_generate_video_fallback [of prompt duration w]
    sections_generate_video_error [of prompt duration w]
    full_generate_video_404 [of w prompt model]
    full_generate_video_other [of w st prompt model]
  show ?thesis by blast
qed

theorem video_falls_back_to_image_witness:
  "fst (fst (video_loop ''P'' 5 video_models_to_try None net_down)) = None
   \<and> isl (fst (generate_video ''P'' 5 net_down))
   \<and> generate_video ''P'' 5 net_down =
        generate_image ''P'' default_image_model
          (snd (video_loop ''P'' 5 video_models_to_try None net_down))
   \<and> fst (sections_video_loop ''P'' 5 sections_video_models net_down) = None
   \<and> isl (fst (sections_generate_video ''P'' 5 net_down))
   \<and> sections_generate_video ''P'' 5 net_down =
        sections_generate_image ''P''
          (snd (sections_video_loop ''P'' 5 sections_video_models net_down))
   \<and> next_status not_found_first = Some 404
   \<and> full_generate_video ''P'' ''wan-2.5'' not_found_first =
        (case full_generate_image ''P'' ''fluently-xl''
                (not_found_first\<lparr>replies := tl (replies not_found_first),
                   trace := trace not_found_first @
                     [Post VideoGenerate (full_video_payload ''wan-2.5'' ''P'') (Some 120)]\<rparr>) of
           (r, w') \<Rightarrow> (map_sum id Some r, w'))
   \<and> next_status server_error_first = Some 500 \<and> is_http_error 500 \<and> (500::nat) \<noteq> 404
   \<and> full_generate_video ''P'' ''wan-2.5'' server_error_first =
        (Inl (HTTPError 500),
         server_error_first\<lparr>replies := tl (replies server_error_first),
           trace := trace server_error_first @
             [Post VideoGenerate (full_video_payload ''wan-2.5'' ''P'') (Some 120)]\<rparr>)"
proof -
  have h1: "fst (fst (video_loop ''P'' 5 video_models_to_try None net_down)) = None"
    by code_simp
  have h2: "isl (fst (generate_video ''P'' 5 net_down))" by code_simp
  have h3: "fst (sections_video_loop ''P'' 5 sections_video_models net_down) = None"
    by code_simp
  have h4: "isl (fst (sections_generate_video ''P'' 5 net_down))" by code_simp
  have h5: "next_status not_found_first = Some 404" by code_simp
  have h6: "next_status server_error_first = Some 500 \<and> is_http_error 500 \<and> (500::nat) \<noteq> 404"
    by code_simp
  from h1 h2 h3 h4 h5 h6
    video_falls_back_to_image [where w = net_down and prompt = "''P''" and duration = 5]
    video_falls_back_to_image [where w = not_found_first and prompt = "''P''"
      and model = "''wan-2.5''"]
    video_falls_back_to_image [where w = server_error_first and prompt = "''P''"
      and model = "''wan-2.5''" and st = 500]
  show ?thesis by blast
qed

text \<open>
  The claim as stated fails on the earlier client: its only video model answers 500, the
  error reaches the caller, and the trace holds no request to the image endpoint.
\<close>

theorem full_client_no_fallback_counterexample:
  "full_generate_video ''P'' ''wan-2.5'' server_error_first =
     (Inl (HTTPError 500),
      \<lparr>replies = [],
       trace = [Post VideoGenerate (full_video_payload ''wan-2.5'' ''P'') (Some 120)],
       files = []\<rparr>)"
  by code_simp

text \<open>
  Claim C4, as amended. When \<^verbatim>\<open>generate_image\<close> of the main client fails, the five fixed
  identifiers have failed and the error raised is the one recorded last, the error of the
  first request to the last list entry (the caller's model); it is never the generic
  \<^verbatim>\<open>Exception("All image models failed")\<close>, also when the image path is reached as the
  fallback of \<^verbatim>\<open>generate_video\<close>. The section client records no error: its image path
  fails with that generic exception.
\<close>

theorem recorded_error_is_raised:
  "(isl (fst (generate_image prompt model w)) \<longrightarrow>
      fst (fst (image_loop prompt (butlast (image_models_to_try model)) None w)) = None
      \<and> fst (generate_image prompt model w) =
          fst (image_try (image_payload model prompt)
                (snd (image_loop prompt (butlast (image_models_to_try model)) None w)))
      \<and> fst (generate_image prompt model w) \<noteq> Inl (PyException ''All image models failed''))
   \<and> (isl (fst (generate_video prompt duration w)) \<longrightarrow>
        fst (generate_video prompt duration w)
          \<noteq> Inl (PyException ''All image models failed''))
   \<and> (isl (fst (sections_generate_image prompt w)) \<longrightarrow>
        fst (sections_generate_image prompt w) = Inl (PyException ''All image models failed''))"
  using generate_image_failure [of prompt model w] generate_video_failure [of prompt duration w]
    sections_generate_image_failure [of prompt w]
  by blast

theorem recorded_error_is_raised_witness:
  "isl (fst (generate_image ''P'' ''hidream'' net_down))
   \<and> fst (generate_image ''P'' ''hidream'' net_down) =
       fst (image_try (image_payload ''hidream'' ''P'')
             (snd (image_loop ''P'' (butlast (image_models_to_try ''hidream'')) None net_down)))
   \<and> isl (fst (generate_video ''P'' 5 net_down))
   \<and> fst (generate_video ''P'' 5 net_down) \<noteq> Inl (PyException ''All image models failed'')
   \<and> isl (fst (sections_generate_image ''P'' net_down))
   \<and> fst (sections_generate_image ''P'' net_down)
       = Inl (PyException ''All image models failed'')"
proof -
  have h1: "isl (fst (generate_image ''P'' ''hidream'' net_down))" by code_simp
  have h2: "isl (fst (generate_video ''P'' 5 net_down))" by code_simp
  have h3: "isl (fst (sections_generate_image ''P'' net_down))" by code_simp
  from h1 h2 h3
    recorded_error_is_raised [where prompt = "''P''" and model = "''hidream''"
      and w = net_down and duration = 5]
  show ?thesis by blast
qed

text \<open>
  The claim as stated fails on the section client: its four identifiers answer 500, and
  the call raises the generic exception, not the \<^verbatim>\<open>HTTPError\<close> met last.
\<close>

theorem sections_generic_error_counterexample:
  "fst (sections_generate_image ''P'' four_server_errors)
     = Inl (PyException ''All image models failed'')
   \<and> fst (sections_generate_image ''P'' four_server_errors) \<noteq> Inl (HTTPError 500)
   \<and> posted (trace (snd (sections_generate_image ''P'' four_server_errors)))
       = sections_image_models"
  by code_simp

text \<open>
  Claim C5. Every request of \<^verbatim>\<open>generate_image\<close> of the main client stays within 1280 by 720
  pixels. The earlier client does not: its one request carries 1920 by 1080.
\<close>

theorem image_request_dimensions:
  "list_all within_maximum (emitted w (snd (generate_image prompt model w)))
   \<and> emitted w (snd (full_generate_image prompt model w)) =
       [Post ImageGenerate (full_image_payload model prompt) None]
   \<and> p_width (full_image_payload model prompt) = Some 1920
   \<and> p_height (full_image_payload model prompt) = Some 1080
   \<and> \<not> list_all within_maximum (emitted w (snd (full_generate_image prompt model w)))"
proof -
  have main: "list_all within_maximum (emitted w (snd (generate_image prompt model w)))"
    using generate_image_effect [of prompt model w] image_pass_within_maximum by blast
  have full: "emitted w (snd (full_generate_image prompt model w)) =
       [Post ImageGenerate (full_image_payload model prompt) None]"
    using full_generate_image_effect [of prompt model w] by (simp add: emitted_def)
  have dims: "p_width (full_image_payload model prompt) = Some 1920"
    "p_height (full_image_payload model prompt) = Some 1080"
    by (simp_all add: full_image_payload_def)
  from full dims have "\<not> list_all within_maximum
      (emitted w (snd (full_generate_image prompt model w)))"
    by (simp add: within_maximum_def)
  with main full dims show ?thesis by blast
qed


text \<open>
  Claim C8, as amended. The generate calls of the three client classes leave the file
  system as it was: they send requests and sleep, and hand the bytes to the caller. The
  function \<^verbatim>\<open>generate_image\<close> of \<^verbatim>\<open>generate_single_image.py\<close> writes the image to its output
  file itself when a model succeeds, and leaves the file system alone otherwise.
\<close>

theorem files_left_to_the_caller:
  "files (snd (generate_image prompt model w)) = files w
   \<and> files (snd (generate_video prompt duration w)) = files w
   \<and> files (snd (sections_generate_image prompt w)) = files w
   \<and> files (snd (sections_generate_video prompt duration w)) = files w
   \<and> files (snd (full_generate_image prompt model w)) = files w
   \<and> files (snd (full_generate_video prompt model w)) = files w
   \<and> (fst (single_generate_image prompt output_file w) \<longrightarrow>
        (\<exists>image_data. files (snd (single_generate_image prompt output_file w))
           = (output_file, image_data) # files w))
   \<and> (\<not> fst (single_generate_image prompt output_file w) \<longrightarrow>
        files (snd (single_generate_image prompt output_file w)) = files w)"
proof -
  have single: "(fst (single_generate_image prompt output_file w) \<longrightarrow>
        (\<exists>image_data. files (snd (single_generate_image prompt output_file w))
           = (output_file, image_data) # files w))
   \<and> (\<not> fst (single_generate_image prompt output_file w) \<longrightarrow>
        files (snd (single_generate_image prompt output_file w)) = files w)"
    using single_loop_files [of prompt output_file single_models w
        "fst (single_generate_image prompt output_file w)"
        "snd (single_generate_image prompt output_file w)"]
    by (simp add: single_generate_image_def)
  from single generate_image_effect [of prompt model w] generate_video_files [of prompt duration w]
    sections_generate_image_files [of prompt w] sections_generate_video_files [of prompt duration w]
    full_generate_image_effect [of prompt model w] full_generate_video_files [of prompt model w]
  show ?thesis by blast
qed

theorem files_left_to_the_caller_witness:
  "fst (single_generate_image ''P'' ''test_output.png'' first_image_answers)
   \<and> (\<exists>image_data.
        files (snd (single_generate_image ''P'' ''test_output.png'' first_image_answers))
          = (''test_output.png'', image_data) # files first_image_answers)
   \<and> \<not> fst (single_generate_image ''P'' ''test_output.png'' net_down)
   \<and> files (snd (single_generate_image ''P'' ''test_output.png'' net_down)) = files net_down"
proof -
  have h1: "fst (single_generate_image ''P'' ''test_output.png'' first_image_answers)"
    by code_simp
  have h2: "\<not> fst (single_generate_image ''P'' ''test_output.png'' net_down)"
    by code_simp
  from h1 h2
    files_left_to_the_caller [where w = first_image_answers and prompt = "''P''"
      and output_file = "''test_output.png''"]
    files_left_to_the_caller [where w = net_down and prompt = "''P''"
      and output_file = "''test_output.png''"]
  show ?thesis by blast
qed

text \<open>
  The claim as stated fails on the test script: its \<^verbatim>\<open>generate_image\<close> writes the decoded
  image to the output file itself and returns \<^verbatim>\<open>True\<close>.
\<close>

theorem single_image_writes_file_counterexample:
  "single_generate_image ''P'' ''test_output.png'' first_image_answers =
     (True,
      \<lparr>replies = [],
       trace = [Post ImageGenerate (image_payload ''nano-banana-pro'' ''P'') (Some 60)],
       files = [(''test_output.png'', [65])]\<rparr>)
   \<and> files first_image_answers = []"
  by code_simp




text \<open>
  Claim C9. In \<^verbatim>\<open>generate_image\<close> of the main client the caller's \<^verbatim>\<open>model\<close> is the sixth and
  last entry of the trial list, after the five fixed identifiers, and the client contacts
  it last: a failed pass has sent one block of requests to each of the six entries in
  order, ending with the caller's model; when the five fixed identifiers fail at once, the
  sixth request goes to the caller's model and its image is returned. With the default
  argument \<^verbatim>\<open>nano-banana-pro\<close> is both the first and the last entry, and a failed pass
  attempts it at its first and again at its last position.
\<close>

theorem caller_model_tried_last:
  "image_models_to_try model =
     [''nano-banana-pro'', ''hidream'', ''venice-sd35'', ''qwen-image'', ''z-image-turbo'']
     @ [model]
   \<and> hd (image_models_to_try default_image_model) = ''nano-banana-pro''
   \<and> last (image_models_to_try default_image_model) = ''nano-banana-pro''
   \<and> (isl (fst (generate_image prompt model w)) \<longrightarrow>
        image_pass prompt (image_models_to_try model) True
          (emitted w (snd (generate_image prompt model w)))
        \<and> remdups_adj (posted (emitted w (snd (generate_image prompt model w))))
            = remdups_adj (image_models_to_try model)
        \<and> last (posted (emitted w (snd (generate_image prompt model w)))) = model)
   \<and> (replies w = fs @ r # rest \<and> list_all fails_at_once fs \<and> length fs = 5
        \<and> carries_image r b
      \<longrightarrow> generate_image prompt model w =
            (Inr b,
             w\<lparr>replies := rest,
               trace := trace w @
                 map (image_post prompt)
                   [''nano-banana-pro'', ''hidream'', ''venice-sd35'', ''qwen-image'',
                    ''z-image-turbo'']
                 @ [image_post prompt model]\<rparr>))
   \<and> (replies w = fs @ rest \<and> list_all fails_at_once fs \<and> length fs = 6
      \<longrightarrow> isl (fst (generate_image prompt model w))
          \<and> snd (generate_image prompt model w) =
              w\<lparr>replies := rest,
                trace := trace w @
                  map (image_post prompt)
                    [''nano-banana-pro'', ''hidream'', ''venice-sd35'', ''qwen-image'',
                     ''z-image-turbo'']
                  @ [image_post prompt model]\<rparr>)
   \<and> (isl (fst (generate_image prompt default_image_model w)) \<longrightarrow>
        remdups_adj (posted (emitted w (snd (generate_image prompt default_image_model w))))
          = image_models_to_try default_image_model
        \<and> 2 \<le> count_list (posted (emitted w (snd (generate_image prompt default_image_model w))))
              ''nano-banana-pro'')"
proof -
  have shape: "image_models_to_try model =
     [''nano-banana-pro'', ''hidream'', ''venice-sd35'', ''qwen-image'', ''z-image-turbo'']
     @ [model]"
    by (simp add: image_models_to_try_def)
  have first: "hd (image_models_to_try default_image_model) = ''nano-banana-pro''"
    and final: "last (image_models_to_try default_image_model) = ''nano-banana-pro''"
    by (simp_all add: image_models_to_try_def default_image_model_def)
  from shape first final generate_image_failed_pass [of prompt model w]
    generate_image_sixth [of w fs r rest b prompt model]
    generate_image_six_failures [of w fs rest prompt model]
    generate_image_default_failed [of prompt w]
  show ?thesis by blast
qed

theorem caller_model_tried_last_witness:
  "isl (fst (generate_image ''P'' ''flux-dev'' net_down))
   \<and> last (posted (emitted net_down (snd (generate_image ''P'' ''flux-dev'' net_down))))
       = ''flux-dev''
   \<and> replies five_errors_then_image = replicate 5 server_error_reply @ image_reply # []
   \<and> list_all fails_at_once (replicate 5 server_error_reply)
   \<and> length (replicate 5 server_error_reply) = 5
   \<and> carries_image image_reply [65]
   \<and> generate_image ''P'' ''flux-dev'' five_errors_then_image =
        (Inr [65],
         five_errors_then_image\<lparr>replies := [],
           trace := trace five_errors_then_image @
             map (image_post ''P'')
               [''nano-banana-pro'', ''hidream'', ''venice-sd35'', ''qwen-image'',
                ''z-image-turbo'']
             @ [image_post ''P'' ''flux-dev'']\<rparr>)
   \<and> replies six_errors = replicate 6 server_error_reply @ []
   \<and> list_all fails_at_once (replicate 6 server_error_reply)
   \<and> length (replicate 6 server_error_reply) = 6
   \<and> isl (fst (generate_image ''P'' ''flux-dev'' six_errors))
   \<and> snd (generate_image ''P'' ''flux-dev'' six_errors) =
        six_errors\<lparr>replies := [],
          trace := trace six_errors @
            map (image_post ''P'')
              [''nano-banana-pro'', ''hidream'', ''venice-sd35'', ''qwen-image'',
               ''z-image-turbo'']
            @ [image_post ''P'' ''flux-dev'']\<rparr>
   \<and> isl (fst (generate_image ''P'' default_image_model net_down))
   \<and> remdups_adj (posted (emitted net_down (snd (generate_image ''P'' default_image_model net_down))))
       = image_models_to_try default_image_model
   \<and> 2 \<le> count_list (posted (emitted net_down (snd (generate_image ''P'' default_image_model net_down))))
              ''nano-banana-pro''"
proof -
  have h1: "isl (fst (generate_image ''P'' ''flux-dev'' net_down))" by code_simp
  have h2: "replies five_errors_then_image = replicate 5 server_error_reply @ image_reply # []"
    by (simp add: five_errors_then_image_def)
  have h3: "list_all fails_at_once (replicate 5 server_error_reply)" by code_simp
  have h4: "length (replicate 5 server_error_reply) = 5" by simp
  have h5: "carries_image image_reply [65]" by code_simp
  have h6: "replies six_errors = replicate 6 server_error_reply @ []"
    by (simp add: six_errors_def)
  have h7: "list_all fails_at_once (replicate 6 server_error_reply)" by code_simp
  have h8: "length (replicate 6 server_error_reply) = 6" by simp
  have h9: "isl (fst (generate_image ''P'' default_image_model net_down))" by code_simp
  from h1 h9 caller_model_tried_last [where model = "''flux-dev''" and prompt = "''P''"
      and w = net_down]
  have a: "last (posted (emitted net_down (snd (generate_image ''P'' ''flux-dev'' net_down))))
       = ''flux-dev''"
    and d: "remdups_adj (posted (emitted net_down
          (snd (generate_image ''P'' default_image_model net_down))))
       = image_models_to_try default_image_model"
      "2 \<le> count_list (posted (emitted net_down
          (snd (generate_image ''P'' default_image_model net_down)))) ''nano-banana-pro''"
    by blast+
  from h2 h3 h4 h5 caller_model_tried_last [where model = "''flux-dev''" and prompt = "''P''"
      and w = five_errors_then_image and fs = "replicate 5 server_error_reply"
      and r = image_reply and rest = "[]" and b = "[65]"]
  have b: "generate_image ''P'' ''flux-dev'' five_errors_then_image =
        (Inr [65],
         five_errors_then_image\<lparr>replies := [],
           trace := trace five_errors_then_image @
             map (image_post ''P'')
               [''nano-banana-pro'', ''hidream'', ''venice-sd35'', ''qwen-image'',
                ''z-image-turbo'']
             @ [image_post ''P'' ''flux-dev'']\<rparr>)"
    by blast
  from h6 h7 h8 caller_model_tried_last [where model = "''flux-dev''" and prompt = "''P''"
      and w = six_errors and fs = "replicate 6 server_error_reply" and rest = "[]"]
  have c: "isl (fst (generate_image ''P'' ''flux-dev'' six_errors))"
    "snd (generate_image ''P'' ''flux-dev'' six_errors) =
        six_errors\<lparr>replies := [],
          trace := trace six_errors @
            map (image_post ''P'')
              [''nano-banana-pro'', ''hidream'', ''venice-sd35'', ''qwen-image'',
               ''z-image-turbo'']
            @ [image_post ''P'' ''flux-dev'']\<rparr>"
    by blast+
  from h1 h2 h3 h4 h5 h6 h7 h8 h9 a b c d show ?thesis by blast
qed

text \<open>
  Claim C2, as amended. In the image path of the main client one iteration of the loop
  sends one POST, or, when the reply is a rate limit (429), the POST, a pause of 15 seconds
  and the same POST once more; a whole pass is a sequence of such blocks in list order, so
  no list entry gets more than two requests. When the retry carries an image, the
  iteration returns it, and so does \<^verbatim>\<open>generate_image\<close> when the first entry is the one rate
  limited; when the retry raises, answers an HTTP error, or has no JSON or no images, the
  loop goes on to the next entry. In the video path a rate limit makes the client pause 15
  seconds and go on to the next identifier: there is no retry.
\<close>

theorem rate_limit_handling:
  "emitted w (snd (image_iteration prompt m le w))
     = image_block prompt m (next_status w = Some 429)
   \<and> image_pass prompt (image_models_to_try model)
       (isl (fst (generate_image prompt model w)))
       (emitted w (snd (generate_image prompt model w)))
   \<and> (replies w = Response 429 js content # r2 # rest \<and> carries_image r2 b \<longrightarrow>
        image_iteration prompt m le w =
          ((Some b, Some (HTTPError 429)),
           w\<lparr>replies := rest, trace := trace w @ image_block prompt m True\<rparr>)
        \<and> generate_image prompt model w =
            (Inr b,
             w\<lparr>replies := rest,
               trace := trace w @ image_block prompt ''nano-banana-pro'' True\<rparr>))
   \<and> (replies w = Response 429 js content # r2 # rest \<and> (refused r2 \<or> without_image r2)
      \<longrightarrow>
        image_iteration prompt m le w =
          ((None, Some (HTTPError 429)),
           w\<lparr>replies := rest, trace := trace w @ image_block prompt m True\<rparr>)
        \<and> image_loop prompt (m # ms) le w =
            image_loop prompt ms (Some (HTTPError 429))
              (w\<lparr>replies := rest, trace := trace w @ image_block prompt m True\<rparr>))
   \<and> (next_status w = Some 429 \<longrightarrow>
        video_iteration prompt duration entry le w =
          ((None, Some (HTTPError 429)),
           w\<lparr>replies := tl (replies w),
             trace := trace w @ [video_post prompt duration entry, Sleep 15]\<rparr>)
        \<and> video_loop prompt duration (entry # entries) le w =
            video_loop prompt duration entries (Some (HTTPError 429))
              (w\<lparr>replies := tl (replies w),
                 trace := trace w @ [video_post prompt duration entry, Sleep 15]\<rparr>))"
  using image_iteration_emitted [of w prompt m le] generate_image_effect [of prompt model w]
    image_iteration_retry_success [of w js content r2 rest b prompt m le]
    generate_image_retry_success [of w js content r2 rest b prompt model]
    image_iteration_retry_failed [of w js content r2 rest prompt m le]
    image_loop_retry_failed [of w js content r2 rest prompt m ms le]
    video_iteration_rate_limited [of w prompt duration entry le]
    video_loop_rate_limited [of w prompt duration entry entries le]
  by blast

theorem rate_limit_handling_witness:
  "replies rate_limited_then_image = Response 429 None [] # image_reply # []
   \<and> carries_image image_reply [65]
   \<and> generate_image ''P'' ''flux-dev'' rate_limited_then_image =
        (Inr [65],
         rate_limited_then_image\<lparr>replies := [],
           trace := trace rate_limited_then_image @
             image_block ''P'' ''nano-banana-pro'' True\<rparr>)
   \<and> replies rate_limited_twice = Response 429 None [] # rate_limit_reply # []
   \<and> (refused rate_limit_reply \<or> without_image rate_limit_reply)
   \<and> image_loop ''P'' (''nano-banana-pro'' # [''hidream'']) None rate_limited_twice =
        image_loop ''P'' [''hidream''] (Some (HTTPError 429))
          (rate_limited_twice\<lparr>replies := [],
             trace := trace rate_limited_twice @ image_block ''P'' ''nano-banana-pro'' True\<rparr>)
   \<and> next_status rate_limited_first = Some 429
   \<and> video_loop ''P'' 5
        ((''sora-2-pro-text-to-video'', True) # [(''veo3.1-full-text-to-video'', True)]) None
        rate_limited_first =
       video_loop ''P'' 5 [(''veo3.1-full-text-to-video'', True)] (Some (HTTPError 429))
         (rate_limited_first\<lparr>replies := tl (replies rate_limited_first),
            trace := trace rate_limited_first @
              [video_post ''P'' 5 (''sora-2-pro-text-to-video'', True), Sleep 15]\<rparr>)"
proof -
  have h1: "replies rate_limited_then_image = Response 429 None [] # image_reply # []"
    by (simp add: rate_limited_then_image_def rate_limit_reply_def)
  have h2: "carries_image image_reply [65]" by code_simp
  have h3: "replies rate_limited_twice = Response 429 None [] # rate_limit_reply # []"
    by (simp add: rate_limited_twice_def rate_limit_reply_def)
  have h4: "refused rate_limit_reply \<or> without_image rate_limit_reply" by code_simp
  have h5: "next_status rate_limited_first = Some 429"
    by (simp add: next_status_def rate_limited_first_def)
  from h1 h2 rate_limit_handling [where w = rate_limited_then_image and js = None
      and content = "[]" and ?r2.0 = image_reply and rest = "[]" and b = "[65]"
      and prompt = "''P''" and model = "''flux-dev''"]
  have a: "generate_image ''P'' ''flux-dev'' rate_limited_then_image =
        (Inr [65],
         rate_limited_then_image\<lparr>replies := [],
           trace := trace rate_limited_then_image @
             image_block ''P'' ''nano-banana-pro'' True\<rparr>)"
    by blast
  from h3 h4 rate_limit_handling [where w = rate_limited_twice and js = None
      and content = "[]" and ?r2.0 = rate_limit_reply and rest = "[]"
      and prompt = "''P''" and m = "''nano-banana-pro''" and ms = "[''hidream'']"
      and le = None]
  have b: "image_loop ''P'' (''nano-banana-pro'' # [''hidream'']) None rate_limited_twice =
        image_loop ''P'' [''hidream''] (Some (HTTPError 429))
          (rate_limited_twice\<lparr>replies := [],
             trace := trace rate_limited_twice @ image_block ''P'' ''nano-banana-pro'' True\<rparr>)"
    by blast
  from h5 rate_limit_handling [where w = rate_limited_first and prompt = "''P''"
      and duration = 5 and entry = "(''sora-2-pro-text-to-video'', True)"
      and entries = "[(''veo3.1-full-text-to-video'', True)]" and le = None]
  have c: "video_loop ''P'' 5
        ((''sora-2-pro-text-to-video'', True) # [(''veo3.1-full-text-to-video'', True)]) None
        rate_limited_first =
       video_loop ''P'' 5 [(''veo3.1-full-text-to-video'', True)] (Some (HTTPError 429))
         (rate_limited_first\<lparr>replies := tl (replies rate_limited_first),
            trace := trace rate_limited_first @
              [video_post ''P'' 5 (''sora-2-pro-text-to-video'', True), Sleep 15]\<rparr>)"
    by blast
  from h1 h2 h3 h4 h5 a b c show ?thesis by blast
qed

text \<open>
  The claim as stated fails twice. On the video path the first identifier is rate
  limited, the client pauses, and the next request already goes to the second identifier.
  On the image path with the default model and a rate limit on every request, the
  identifier \<^verbatim>\<open>nano-banana-pro\<close>, first and last in the list, gets four requests in one pass.
\<close>

theorem video_rate_limit_counterexample:
  "emitted rate_limited_first
     (snd (video_loop ''P'' 5 video_models_to_try None rate_limited_first))
   = [Post VideoGenerate (video_payload ''sora-2-pro-text-to-video'' True ''P'' 5) (Some 180),
      Sleep 15,
      Post VideoGenerate (video_payload ''veo3.1-full-text-to-video'' True ''P'' 5) (Some 180),
      Post VideoGenerate (video_payload ''kling-2.6-pro-text-to-video'' True ''P'' 5) (Some 180),
      Post VideoGenerate (video_payload ''wan-2.6-text-to-video'' True ''P'' 5) (Some 180),
      Post VideoGenerate (video_payload ''ltx-2-full-text-to-video'' True ''P'' 5) (Some 180)]
   \<and> count_list
       (posted (trace (snd (generate_image ''P'' default_image_model always_rate_limited))))
       ''nano-banana-pro'' = 4"
  by code_simp

text \<open>
  Claim C6, as amended. Decoding inverts the encoding of the mocked service for every byte
  string \<open>B\<close>. When the images array of a response starts with the encoding of \<open>B\<close>, the
  image path of the main client returns \<open>B\<close> after that one request. When the video field
  holds the encoding of \<open>B\<close> and that text does not start with \<^verbatim>\<open>http\<close>, the video path
  returns \<open>B\<close> after that one request. When that text does start with \<^verbatim>\<open>http\<close>, the client
  takes it for a URL: \<^verbatim>\<open>requests\<close> rejects it, nothing is decoded or fetched, and the loop
  goes on to the next identifier.
\<close>

theorem inline_base64_is_decoded:
  "b64decode (JStr (b64encode B)) = Inr B
   \<and> (replies w = Response st (Some (JObj kvs)) content # rest \<and> \<not> is_http_error st
        \<and> map_of kvs ''images'' = Some (JList (JStr (b64encode B) # others))
      \<longrightarrow> generate_image prompt model w =
            (Inr B, w\<lparr>replies := rest,
               trace := trace w @
                 [Post ImageGenerate (image_payload ''nano-banana-pro'' prompt) (Some 60)]\<rparr>))
   \<and> (replies w = Response st (Some (JObj kvs)) content # rest \<and> \<not> is_http_error st
        \<and> map_of kvs ''video'' = Some (JStr (b64encode B))
        \<and> \<not> startswith_http (b64encode B)
      \<longrightarrow> generate_video prompt duration w =
            (Inr B, w\<lparr>replies := rest,
               trace := trace w @ [video_post prompt duration (hd video_models_to_try)]\<rparr>))
   \<and> (replies w = Response st (Some (JObj kvs)) content # rest \<and> \<not> is_http_error st
        \<and> map_of kvs ''video'' = Some (JStr (b64encode B))
        \<and> startswith_http (b64encode B)
      \<longrightarrow> video_iteration prompt duration entry le w =
            ((None, Some RequestException),
             w\<lparr>replies := rest, trace := trace w @ [video_post prompt duration entry]\<rparr>))"
  using b64decode_b64encode [of B] generate_image_inline [of w st kvs content rest B others]
    generate_video_inline [of w st kvs content rest B]
    video_iteration_http_like [of w st kvs content rest B prompt duration entry le]
  by blast

theorem inline_base64_is_decoded_witness:
  "replies (inline_image_answer [1, 2, 3, 4]) =
       Response 200 (Some (JObj [(''images'', JList [JStr (b64encode [1, 2, 3, 4])])])) [] # []
   \<and> \<not> is_http_error 200
   \<and> map_of [(''images'', JList [JStr (b64encode [1, 2, 3, 4])])] ''images''
       = Some (JList (JStr (b64encode [1, 2, 3, 4]) # []))
   \<and> generate_image ''P'' ''hidream'' (inline_image_answer [1, 2, 3, 4]) =
        (Inr [1, 2, 3, 4],
         (inline_image_answer [1, 2, 3, 4])\<lparr>replies := [],
           trace := trace (inline_image_answer [1, 2, 3, 4]) @
             [Post ImageGenerate (image_payload ''nano-banana-pro'' ''P'') (Some 60)]\<rparr>)
   \<and> replies (inline_video_answer [1, 2, 3, 4]) =
       Response 200 (Some (JObj [(''video'', JStr (b64encode [1, 2, 3, 4]))])) [] # []
   \<and> map_of [(''video'', JStr (b64encode [1, 2, 3, 4]))] ''video''
       = Some (JStr (b64encode [1, 2, 3, 4]))
   \<and> \<not> startswith_http (b64encode [1, 2, 3, 4])
   \<and> generate_video ''P'' 5 (inline_video_answer [1, 2, 3, 4]) =
        (Inr [1, 2, 3, 4],
         (inline_video_answer [1, 2, 3, 4])\<lparr>replies := [],
           trace := trace (inline_video_answer [1, 2, 3, 4]) @
             [video_post ''P'' 5 (hd video_models_to_try)]\<rparr>)
   \<and> replies (inline_video_answer [134, 219, 105]) =
       Response 200 (Some (JObj [(''video'', JStr (b64encode [134, 219, 105]))])) [] # []
   \<and> map_of [(''video'', JStr (b64encode [134, 219, 105]))] ''video''
       = Some (JStr (b64encode [134, 219, 105]))
   \<and> startswith_http (b64encode [134, 219, 105])
   \<and> video_iteration ''P'' 5 (''sora-2-pro-text-to-video'', True) None
        (inline_video_answer [134, 219, 105]) =
        ((None, Some RequestException),
         (inline_video_answer [134, 219, 105])\<lparr>replies := [],
           trace := trace (inline_video_answer [134, 219, 105]) @
             [video_post ''P'' 5 (''sora-2-pro-text-to-video'', True)]\<rparr>)"
proof -
  have h1: "replies (inline_image_answer [1, 2, 3, 4]) =
       Response 200 (Some (JObj [(''images'', JList [JStr (b64encode [1, 2, 3, 4])])])) [] # []"
    by (simp add: inline_image_answer_def)
  have h2: "\<not> is_http_error 200" by (simp add: is_http_error_def)
  have h3: "map_of [(''images'', JList [JStr (b64encode [1, 2, 3, 4])])] ''images''
       = Some (JList (JStr (b64encode [1, 2, 3, 4]) # []))"
    by simp
  have h4: "replies (inline_video_answer [1, 2, 3, 4]) =
       Response 200 (Some (JObj [(''video'', JStr (b64encode [1, 2, 3, 4]))])) [] # []"
    by (simp add: inline_video_answer_def)
  have h5: "map_of [(''video'', JStr (b64encode [1, 2, 3, 4]))] ''video''
       = Some (JStr (b64encode [1, 2, 3, 4]))"
    by simp
  have h6: "\<not> startswith_http (b64encode [1, 2, 3, 4])" by code_simp
  have h7: "replies (inline_video_answer [134, 219, 105]) =
       Response 200 (Some (JObj [(''video'', JStr (b64encode [134, 219, 105]))])) [] # []"
    by (simp add: inline_video_answer_def)
  have h8: "map_of [(''video'', JStr (b64encode [134, 219, 105]))] ''video''
       = Some (JStr (b64encode [134, 219, 105]))"
    by simp
  have h9: "startswith_http (b64encode [134, 219, 105])" by code_simp
  from h1 h2 h3
    inline_base64_is_decoded [where w = "inline_image_answer [1, 2, 3, 4]" and st = 200
      and kvs = "[(''images'', JList [JStr (b64encode [1, 2, 3, 4])])]" and content = "[]"
      and rest = "[]" and B = "[1, 2, 3, 4]" and others = "[]" and prompt = "''P''"
      and model = "''hidream''"]
  have a: "generate_image ''P'' ''hidream'' (inline_image_answer [1, 2, 3, 4]) =
        (Inr [1, 2, 3, 4],
         (inline_image_answer [1, 2, 3, 4])\<lparr>replies := [],
           trace := trace (inline_image_answer [1, 2, 3, 4]) @
             [Post ImageGenerate (image_payload ''nano-banana-pro'' ''P'') (Some 60)]\<rparr>)"
    by blast
  from h4 h2 h5 h6
    inline_base64_is_decoded [where w = "inline_video_answer [1, 2, 3, 4]" and st = 200
      and kvs = "[(''video'', JStr (b64encode [1, 2, 3, 4]))]" and content = "[]"
      and rest = "[]" and B = "[1, 2, 3, 4]" and prompt = "''P''" and duration = 5]
  have b: "generate_video ''P'' 5 (inline_video_answer [1, 2, 3, 4]) =
        (Inr [1, 2, 3, 4],
         (inline_video_answer [1, 2, 3, 4])\<lparr>replies := [],
           trace := trace (inline_video_answer [1, 2, 3, 4]) @
             [video_post ''P'' 5 (hd video_models_to_try)]\<rparr>)"
    by blast
  from h7 h2 h8 h9
    inline_base64_is_decoded [where w = "inline_video_answer [134, 219, 105]" and st = 200
      and kvs = "[(''video'', JStr (b64encode [134, 219, 105]))]" and content = "[]"
      and rest = "[]" and B = "[134, 219, 105]" and prompt = "''P''" and duration = 5
      and entry = "(''sora-2-pro-text-to-video'', True)" and le = None]
  have c: "video_iteration ''P'' 5 (''sora-2-pro-text-to-video'', True) None
        (inline_video_answer [134, 219, 105]) =
        ((None, Some RequestException),
         (inline_video_answer [134, 219, 105])\<lparr>replies := [],
           trace := trace (inline_video_answer [134, 219, 105]) @
             [video_post ''P'' 5 (''sora-2-pro-text-to-video'', True)]\<rparr>)"
    by blast
  from h1 h2 h3 h4 h5 h6 h7 h8 h9 a b c show ?thesis by blast
qed

text \<open>
  The claim as stated fails on the video field: the three bytes 0x86 0xDB 0x69 are encoded
  as \<^verbatim>\<open>http\<close>, which the client takes for a URL and does not decode. With nothing else
  answering, every identifier of both lists is tried and the call fails; these bytes are
  not returned.
\<close>

theorem http_like_payload_counterexample:
  "b64encode [134, 219, 105] = ''http''
   \<and> generate_video ''P'' 5 (inline_video_answer [134, 219, 105]) =
       (Inl RequestException,
        \<lparr>replies = [],
         trace = map (video_post ''P'' 5) video_models_to_try
           @ map (image_post ''P'') (image_models_to_try default_image_model),
         files = []\<rparr>)"
  by code_simp




end
